theory Spec2Isabelle
  imports Complex_Main "HOL-Library.Sublist"
begin

section \<open>Python values\<close>

text \<open>
  The notebook \<^verbatim>\<open>src/pytorch/1.dataloader_collate_fn.ipynb\<close> defines two collate functions,
  \<^verbatim>\<open>custom_collate\<close> (section 1.3) and \<^verbatim>\<open>custom_detection_collate\<close> (section 2.3). Both
  inspect their argument with \<^verbatim>\<open>isinstance\<close>, \<^verbatim>\<open>len\<close> and subscripts, so the argument is
  modelled as a dynamically typed Python value. Dictionary keys are integers or strings;
  a dictionary is an association list in insertion order (keys distinct in a well-formed
  dictionary). A tensor is its shape and its elements in row-major order; the collate
  functions never compute with the elements, they only move them.
\<close>

datatype pykey = KInt int | KStr string

datatype pyval =
    PNone
  | PInt int
  | PStr string
  | PTensor "nat list" "real list"
  | PTuple "pyval list"
  | PList "pyval list"
  | PDict "(pykey \<times> pyval) list"

datatype error = IndexError | KeyError | TypeError | ValueError | RuntimeError

subsection \<open>The built-ins the two functions use\<close>

text \<open>\<^verbatim>\<open>isinstance(x, list)\<close> and \<^verbatim>\<open>isinstance(x, dict)\<close>.\<close>

fun isinstance_list :: "pyval \<Rightarrow> bool" where
  "isinstance_list (PList xs) = True"
| "isinstance_list v = False"

fun isinstance_dict :: "pyval \<Rightarrow> bool" where
  "isinstance_dict (PDict kvs) = True"
| "isinstance_dict v = False"

text \<open>
  \<^verbatim>\<open>len(x)\<close>: \<^verbatim>\<open>None\<close>, an \<^verbatim>\<open>int\<close> and a 0-dimensional tensor have no length
  (\<^verbatim>\<open>TypeError\<close>); a tensor's length is its leading dimension.
\<close>

fun py_len :: "pyval \<Rightarrow> error + nat" where
  "py_len PNone = Inl TypeError"
| "py_len (PInt i) = Inl TypeError"
| "py_len (PStr s) = Inr (length s)"
| "py_len (PTensor [] d) = Inl TypeError"
| "py_len (PTensor (n # sh) d) = Inr n"
| "py_len (PTuple xs) = Inr (length xs)"
| "py_len (PList xs) = Inr (length xs)"
| "py_len (PDict kvs) = Inr (length kvs)"

text \<open>The \<open>i\<close>-th slice of a tensor along its leading dimension; \<open>sh\<close> is the rest of the shape.\<close>

definition tensor_slice :: "nat list \<Rightarrow> real list \<Rightarrow> nat \<Rightarrow> pyval" where
  "tensor_slice sh d i = PTensor sh (take (prod_list sh) (drop (i * prod_list sh) d))"

text \<open>
  \<^verbatim>\<open>x[i]\<close> for the non-negative literal indices \<^verbatim>\<open>0\<close> and \<^verbatim>\<open>1\<close> of the source: a sequence
  raises \<^verbatim>\<open>IndexError\<close> out of range, a dictionary looks the integer up as a key
  (\<^verbatim>\<open>KeyError\<close> when absent), \<^verbatim>\<open>None\<close> and \<^verbatim>\<open>int\<close> are not subscriptable.
\<close>

fun py_getitem :: "pyval \<Rightarrow> nat \<Rightarrow> error + pyval" where
  "py_getitem PNone i = Inl TypeError"
| "py_getitem (PInt k) i = Inl TypeError"
| "py_getitem (PStr s) i = (if i < length s then Inr (PStr [s ! i]) else Inl IndexError)"
| "py_getitem (PTensor [] d) i = Inl IndexError"
| "py_getitem (PTensor (n # sh) d) i =
     (if i < n then Inr (tensor_slice sh d i) else Inl IndexError)"
| "py_getitem (PTuple xs) i = (if i < length xs then Inr (xs ! i) else Inl IndexError)"
| "py_getitem (PList xs) i = (if i < length xs then Inr (xs ! i) else Inl IndexError)"
| "py_getitem (PDict kvs) i =
     (case map_of kvs (KInt (int i)) of None \<Rightarrow> Inl KeyError | Some v \<Rightarrow> Inr v)"

text \<open>
  Iteration, as the \<^verbatim>\<open>for\<close> of a comprehension and tuple unpacking do it: a dictionary
  yields its keys, a string its characters, a tensor its slices.
\<close>

fun key_val :: "pykey \<Rightarrow> pyval" where
  "key_val (KInt i) = PInt i"
| "key_val (KStr s) = PStr s"

fun py_iter :: "pyval \<Rightarrow> error + pyval list" where
  "py_iter PNone = Inl TypeError"
| "py_iter (PInt k) = Inl TypeError"
| "py_iter (PStr s) = Inr (map (\<lambda>c. PStr [c]) s)"
| "py_iter (PTensor [] d) = Inl TypeError"
| "py_iter (PTensor (n # sh) d) = Inr (map (tensor_slice sh d) [0..<n])"
| "py_iter (PTuple xs) = Inr xs"
| "py_iter (PList xs) = Inr xs"
| "py_iter (PDict kvs) = Inr (map (\<lambda>kv. key_val (fst kv)) kvs)"

text \<open>
  The target \<^verbatim>\<open>img, target\<close> of the comprehensions: the sample is iterated and must
  yield exactly two values (\<^verbatim>\<open>ValueError\<close> otherwise).
\<close>

definition unpack2 :: "pyval \<Rightarrow> error + (pyval \<times> pyval)" where
  "unpack2 s =
     (case py_iter s of
        Inl e \<Rightarrow> Inl e
      | Inr [a, b] \<Rightarrow> Inr (a, b)
      | Inr vs \<Rightarrow> Inl ValueError)"

text \<open>
  \<^verbatim>\<open>[f(img, target) for img, target in samples]\<close>: the samples are unpacked from left to
  right and the first failure ends the comprehension.
\<close>

fun comprehension :: "(pyval \<times> pyval \<Rightarrow> pyval) \<Rightarrow> pyval list \<Rightarrow> error + pyval list" where
  "comprehension f [] = Inr []"
| "comprehension f (s # ss) =
     (case unpack2 s of
        Inl e \<Rightarrow> Inl e
      | Inr p \<Rightarrow>
          (case comprehension f ss of
             Inl e \<Rightarrow> Inl e
           | Inr vs \<Rightarrow> Inr (f p # vs)))"

text \<open>\<^verbatim>\<open>[img for img, target in batch]\<close> and \<^verbatim>\<open>[target for img, target in batch]\<close>.\<close>

definition imgs_of :: "pyval \<Rightarrow> error + pyval list" where
  "imgs_of batch =
     (case py_iter batch of Inl e \<Rightarrow> Inl e | Inr ss \<Rightarrow> comprehension fst ss)"

definition targets_of :: "pyval \<Rightarrow> error + pyval list" where
  "targets_of batch =
     (case py_iter batch of Inl e \<Rightarrow> Inl e | Inr ss \<Rightarrow> comprehension snd ss)"

subsection \<open>The library's stack\<close>

text \<open>
  Modelled from the spec: \<^verbatim>\<open>torch.stack\<close> is a function of the PyTorch library and is not
  in the repository. The spec says that the inputs "are stacked into a single array", that
  "a uniform stack is only legal when every input shares identical shape", that the stacked
  array has "shape (batch, ...sample shape)" in sample order, and that stacking arrays of
  unequal dimensions is the shape-mismatch failure. An empty list and a list holding
  something that is not an array are rejected as well.
\<close>

fun is_tensor :: "pyval \<Rightarrow> bool" where
  "is_tensor (PTensor sh d) = True"
| "is_tensor v = False"

fun tensor_shape :: "pyval \<Rightarrow> nat list" where
  "tensor_shape (PTensor sh d) = sh"
| "tensor_shape v = []"

fun tensor_data :: "pyval \<Rightarrow> real list" where
  "tensor_data (PTensor sh d) = d"
| "tensor_data v = []"

definition torch_stack :: "pyval list \<Rightarrow> error + pyval" where
  "torch_stack ts =
     (case ts of
        [] \<Rightarrow> Inl RuntimeError
      | t # rest \<Rightarrow>
          if \<not> list_all is_tensor ts then Inl TypeError
          else if \<not> list_all (\<lambda>x. tensor_shape x = tensor_shape t) ts then Inl RuntimeError
          else Inr (PTensor (length ts # tensor_shape t) (concat (map tensor_data ts))))"

subsection \<open>The library's default resolver\<close>

text \<open>
  Modelled from the spec: \<^verbatim>\<open>torch.utils.data.default_collate\<close> is a function of the PyTorch
  library and is not in the repository. The spec describes it as a function that "inspects
  the runtime type of the first element of a batch (numeric array, mapping, sequence,
  scalar) and recursively stacks same-typed fields across all samples into batched
  containers", "positionally (tuples \<rightarrow> tuple of stacked fields; mappings \<rightarrow> mapping of
  stacked fields; scalars \<rightarrow> 1-D array of values)", and that fails with a runtime error on
  arrays of unequal dimensions. The spec does not name two kinds of first element; for
  them the model does what the library does: a batch of strings is returned as it is, and
  \<^verbatim>\<open>None\<close> is rejected with \<^verbatim>\<open>TypeError\<close>.
\<close>

fun is_int :: "pyval \<Rightarrow> bool" where
  "is_int (PInt i) = True"
| "is_int v = False"

fun int_of :: "pyval \<Rightarrow> int" where
  "int_of (PInt i) = i"
| "int_of v = 0"

text \<open>\<^verbatim>\<open>d[key]\<close> for a sample \<^verbatim>\<open>d\<close> of a batch of mappings.\<close>

fun field :: "pykey \<Rightarrow> pyval \<Rightarrow> error + pyval" where
  "field k (PDict kvs) = (case map_of kvs k of None \<Rightarrow> Inl KeyError | Some v \<Rightarrow> Inr v)"
| "field k v = Inl TypeError"

text \<open>The results of a comprehension whose body can raise: the first error, or all values.\<close>

fun collect :: "(error + 'a) list \<Rightarrow> error + 'a list" where
  "collect [] = Inr []"
| "collect (r # rs) =
     (case r of
        Inl e \<Rightarrow> Inl e
      | Inr v \<Rightarrow> (case collect rs of Inl e \<Rightarrow> Inl e | Inr vs \<Rightarrow> Inr (v # vs)))"

fun seq_items :: "pyval \<Rightarrow> pyval list option" where
  "seq_items (PTuple xs) = Some xs"
| "seq_items (PList xs) = Some xs"
| "seq_items v = None"

text \<open>The \<open>k\<close> fields of all samples, and the \<open>j\<close>-th components of all samples.\<close>

definition fields :: "pykey \<Rightarrow> pyval list \<Rightarrow> error + pyval list" where
  "fields k ss = collect (map (field k) ss)"

definition column :: "nat \<Rightarrow> pyval list \<Rightarrow> error + pyval list" where
  "column j ss =
     collect (map (\<lambda>s. case seq_items s of
                          None \<Rightarrow> Inl TypeError
                        | Some xs \<Rightarrow> if j < length xs then Inr (xs ! j) else Inl RuntimeError) ss)"

lemma collect_Cons_Inr:
  "collect (r # rs) = Inr vs \<longleftrightarrow>
     (\<exists>v vs'. r = Inr v \<and> collect rs = Inr vs' \<and> vs = v # vs')"
  by (auto split: sum.splits)

lemma size_map_of:
  "map_of kvs k = Some v \<Longrightarrow> size v < Suc (size_list (size_prod (\<lambda>x. 0) size) kvs)"
  by (induction kvs) (auto split: if_splits)

lemma size_nth: "j < length xs \<Longrightarrow> size (xs ! j) < Suc (size_list size xs)"
proof (induction xs arbitrary: j)
  case Nil
  then show ?case by simp
next
  case (Cons a xs)
  show ?case
  proof (cases j)
    case 0
    then show ?thesis by simp
  next
    case (Suc m)
    with Cons.prems have "m < length xs" by simp
    from Cons.IH [OF this] Suc show ?thesis by simp
  qed
qed

lemma fields_hd:
  "fields k (PDict kvs # rest) = Inr col \<Longrightarrow> col \<noteq> [] \<and> size (hd col) < size (PDict kvs)"
  unfolding fields_def
  by (auto simp del: collect.simps simp: collect_Cons_Inr split: option.splits dest: size_map_of)

text \<open>
  The resolver on the samples of a batch. Every recursive call is on a list whose first
  element is a component of the first sample, which is the measure of termination.
\<close>

function collate :: "pyval list \<Rightarrow> error + pyval" where
  "collate [] = Inl IndexError"
| "collate (PNone # rest) = Inl TypeError"
| "collate (PStr s # rest) = Inr (PList (PStr s # rest))"
| "collate (PTensor sh d # rest) = torch_stack (PTensor sh d # rest)"
| "collate (PInt i # rest) =
     (if list_all is_int rest
      then Inr (PTensor [Suc (length rest)] (map (\<lambda>v. real_of_int (int_of v)) (PInt i # rest)))
      else Inl TypeError)"
| "collate (PDict kvs # rest) =
     (case collect (map (\<lambda>k. case fields k (PDict kvs # rest) of
                                  Inl e \<Rightarrow> Inl e
                                | Inr col \<Rightarrow> collate col) (map fst kvs)) of
        Inl e \<Rightarrow> Inl e
      | Inr vs \<Rightarrow> Inr (PDict (zip (map fst kvs) vs)))"
| "collate (PTuple xs # rest) =
     (if \<not> list_all (\<lambda>s. map_option length (seq_items s) = Some (length xs)) rest
      then Inl RuntimeError
      else
        (case collect (map (\<lambda>j. case column j (PTuple xs # rest) of
                                    Inl e \<Rightarrow> Inl e
                                  | Inr col \<Rightarrow> collate col) [0..<length xs]) of
           Inl e \<Rightarrow> Inl e
         | Inr vs \<Rightarrow> Inr (PTuple vs)))"
| "collate (PList xs # rest) =
     (if \<not> list_all (\<lambda>s. map_option length (seq_items s) = Some (length xs)) rest
      then Inl RuntimeError
      else
        (case collect (map (\<lambda>j. case column j (PList xs # rest) of
                                    Inl e \<Rightarrow> Inl e
                                  | Inr col \<Rightarrow> collate col) [0..<length xs]) of
           Inl e \<Rightarrow> Inl e
         | Inr vs \<Rightarrow> Inr (PList vs)))"
  by pat_completeness auto
termination
  apply (relation "measure (\<lambda>b. size (hd b))")
  apply simp
  subgoal by (auto dest: fields_hd)
  subgoal by (auto simp del: collect.simps simp: column_def collect_Cons_Inr intro: size_nth)
  subgoal by (auto simp del: collect.simps simp: column_def collect_Cons_Inr intro: size_nth)
  done

definition default_collate :: "pyval \<Rightarrow> error + pyval" where
  "default_collate batch =
     (case py_iter batch of Inl e \<Rightarrow> Inl e | Inr ss \<Rightarrow> collate ss)"

section \<open>The collate functions of the notebook\<close>

text \<open>
  Both functions start with the same test,
  \<^verbatim>\<open>isinstance(batch, list) and len(batch[0]) == 2 and isinstance(batch[0][1], dict)\<close>.
  \<^verbatim>\<open>and\<close> evaluates from left to right and stops at the first false operand; an operand
  that raises ends the call with that error.
\<close>

definition dispatch :: "pyval \<Rightarrow> error + bool" where
  "dispatch batch =
     (if \<not> isinstance_list batch then Inr False
      else
        (case py_getitem batch 0 of
           Inl e \<Rightarrow> Inl e
         | Inr first \<Rightarrow>
             (case py_len first of
                Inl e \<Rightarrow> Inl e
              | Inr n \<Rightarrow>
                  if n \<noteq> 2 then Inr False
                  else
                    (case py_getitem batch 0 of
                       Inl e \<Rightarrow> Inl e
                     | Inr first' \<Rightarrow>
                         (case py_getitem first' 1 of
                            Inl e \<Rightarrow> Inl e
                          | Inr second \<Rightarrow> Inr (isinstance_dict second))))))"

text \<open>
  The body of the \<^verbatim>\<open>if\<close> of \<^verbatim>\<open>custom_collate\<close>: the first comprehension, then
  \<^verbatim>\<open>torch.stack\<close>, then the second comprehension, then the pair.
\<close>

definition collate_branch :: "pyval \<Rightarrow> error + pyval" where
  "collate_branch batch =
     (case imgs_of batch of
        Inl e \<Rightarrow> Inl e
      | Inr is \<Rightarrow>
          (case torch_stack is of
             Inl e \<Rightarrow> Inl e
           | Inr imgs \<Rightarrow>
               (case targets_of batch of
                  Inl e \<Rightarrow> Inl e
                | Inr targets \<Rightarrow> Inr (PTuple [imgs, PList targets]))))"

text \<open>The body of the \<^verbatim>\<open>if\<close> of \<^verbatim>\<open>custom_detection_collate\<close>: the images stay a list.\<close>

definition detection_branch :: "pyval \<Rightarrow> error + pyval" where
  "detection_branch batch =
     (case imgs_of batch of
        Inl e \<Rightarrow> Inl e
      | Inr imgs \<Rightarrow>
          (case targets_of batch of
             Inl e \<Rightarrow> Inl e
           | Inr targets \<Rightarrow> Inr (PTuple [PList imgs, PList targets])))"

text \<open>
  The two functions. The \<^verbatim>\<open>else\<close> calls \<^verbatim>\<open>torch.utils.data.default_collate\<close>, a library
  function; it is the parameter \<open>dc\<close>.
\<close>

definition custom_collate :: "(pyval \<Rightarrow> error + pyval) \<Rightarrow> pyval \<Rightarrow> error + pyval" where
  "custom_collate dc batch =
     (case dispatch batch of
        Inl e \<Rightarrow> Inl e
      | Inr matched \<Rightarrow> if matched then collate_branch batch else dc batch)"

definition custom_detection_collate :: "(pyval \<Rightarrow> error + pyval) \<Rightarrow> pyval \<Rightarrow> error + pyval" where
  "custom_detection_collate dc batch =
     (case dispatch batch of
        Inl e \<Rightarrow> Inl e
      | Inr matched \<Rightarrow> if matched then detection_branch batch else dc batch)"

subsection \<open>Samples\<close>

text \<open>
  The data model of the spec: a sample is a 2-element tuple (input, annotation). These are
  the words of the claims, not code of the notebook.
\<close>

fun is_tuple2 :: "pyval \<Rightarrow> bool" where
  "is_tuple2 (PTuple [a, b]) = True"
| "is_tuple2 v = False"

fun input_of :: "pyval \<Rightarrow> pyval" where
  "input_of (PTuple (a # rest)) = a"
| "input_of v = PNone"

fun annotation_of :: "pyval \<Rightarrow> pyval" where
  "annotation_of (PTuple (a # b # rest)) = b"
| "annotation_of v = PNone"

text \<open>Arrays that can be stacked: at least one, all arrays, all of the shape of the first.\<close>

definition uniform_tensors :: "pyval list \<Rightarrow> bool" where
  "uniform_tensors ts \<longleftrightarrow>
     ts \<noteq> [] \<and> list_all is_tensor ts \<and> list_all (\<lambda>x. tensor_shape x = tensor_shape (hd ts)) ts"

definition stacked :: "pyval list \<Rightarrow> pyval" where
  "stacked ts = PTensor (length ts # tensor_shape (hd ts)) (concat (map tensor_data ts))"

text \<open>The items of a mapping, and the value a mapping holds for a key (\<^verbatim>\<open>None\<close> when absent).\<close>

fun dict_items :: "pyval \<Rightarrow> (pykey \<times> pyval) list" where
  "dict_items (PDict kvs) = kvs"
| "dict_items v = []"

definition dict_get :: "pykey \<Rightarrow> pyval \<Rightarrow> pyval" where
  "dict_get k d = (case map_of (dict_items d) k of None \<Rightarrow> PNone | Some v \<Rightarrow> v)"

text \<open>
  The attributes of a batch that the test reads besides its type: the length of its first
  sample, and whether the first sample's element at index 1 is a \<^verbatim>\<open>dict\<close>.
\<close>

definition len_of_first :: "pyval \<Rightarrow> error + nat" where
  "len_of_first batch =
     (case py_getitem batch 0 of Inl e \<Rightarrow> Inl e | Inr first \<Rightarrow> py_len first)"

definition second_of_first_is_dict :: "pyval \<Rightarrow> error + bool" where
  "second_of_first_is_dict batch =
     (case py_getitem batch 0 of
        Inl e \<Rightarrow> Inl e
      | Inr first \<Rightarrow>
          (case py_getitem first 1 of
             Inl e \<Rightarrow> Inl e
           | Inr second \<Rightarrow> Inr (isinstance_dict second)))"

section \<open>The same functions on a store of objects\<close>

text \<open>
  Whether a call changes its argument cannot be said of immutable values. For that
  question the two functions are translated a second time, over a store: every Python
  object lives at an address, containers hold the addresses of their elements, and a
  computation takes the store and returns its result with the store it leaves behind. A
  new object is appended to the store; an address outside the store (which Python cannot
  produce) reads as \<^verbatim>\<open>None\<close>. The dictionary keeps its keys by value, so iterating a
  dictionary makes an object for each key.
\<close>

type_synonym addr = nat

datatype obj =
    ONone
  | OInt int
  | OStr string
  | OTensor "nat list" "real list"
  | OTuple "addr list"
  | OList "addr list"
  | ODict "(pykey \<times> addr) list"

type_synonym store = "obj list"

definition obj_at :: "store \<Rightarrow> addr \<Rightarrow> obj" where
  "obj_at h a = (if a < length h then h ! a else ONone)"

text \<open>Computations on the store: return, raise, sequencing, and the creation of objects.\<close>

definition st_return :: "'a \<Rightarrow> store \<Rightarrow> (error + 'a) \<times> store" where
  "st_return v h = (Inr v, h)"

definition st_raise :: "error \<Rightarrow> store \<Rightarrow> (error + 'a) \<times> store" where
  "st_raise e h = (Inl e, h)"

definition st_bind ::
  "(store \<Rightarrow> (error + 'a) \<times> store) \<Rightarrow> ('a \<Rightarrow> store \<Rightarrow> (error + 'b) \<times> store)
     \<Rightarrow> store \<Rightarrow> (error + 'b) \<times> store" where
  "st_bind m f h = (case m h of (Inl e, h') \<Rightarrow> (Inl e, h') | (Inr v, h') \<Rightarrow> f v h')"

definition st_new :: "obj \<Rightarrow> store \<Rightarrow> (error + addr) \<times> store" where
  "st_new ob h = (Inr (length h), h @ [ob])"

definition st_new_all :: "obj list \<Rightarrow> store \<Rightarrow> (error + addr list) \<times> store" where
  "st_new_all obs h = (Inr [length h..<length h + length obs], h @ obs)"

text \<open>\<^verbatim>\<open>isinstance\<close>, \<^verbatim>\<open>len\<close>, subscript and iteration read the object at an address.\<close>

fun is_list_obj :: "obj \<Rightarrow> bool" where
  "is_list_obj (OList xs) = True"
| "is_list_obj ob = False"

fun is_dict_obj :: "obj \<Rightarrow> bool" where
  "is_dict_obj (ODict kvs) = True"
| "is_dict_obj ob = False"

definition st_isinstance_list :: "addr \<Rightarrow> store \<Rightarrow> (error + bool) \<times> store" where
  "st_isinstance_list a h = st_return (is_list_obj (obj_at h a)) h"

definition st_isinstance_dict :: "addr \<Rightarrow> store \<Rightarrow> (error + bool) \<times> store" where
  "st_isinstance_dict a h = st_return (is_dict_obj (obj_at h a)) h"

fun len_obj :: "obj \<Rightarrow> error + nat" where
  "len_obj ONone = Inl TypeError"
| "len_obj (OInt i) = Inl TypeError"
| "len_obj (OStr s) = Inr (length s)"
| "len_obj (OTensor [] d) = Inl TypeError"
| "len_obj (OTensor (n # sh) d) = Inr n"
| "len_obj (OTuple xs) = Inr (length xs)"
| "len_obj (OList xs) = Inr (length xs)"
| "len_obj (ODict kvs) = Inr (length kvs)"

definition st_len :: "addr \<Rightarrow> store \<Rightarrow> (error + nat) \<times> store" where
  "st_len a h = (len_obj (obj_at h a), h)"

definition slice_obj :: "nat list \<Rightarrow> real list \<Rightarrow> nat \<Rightarrow> obj" where
  "slice_obj sh d i = OTensor sh (take (prod_list sh) (drop (i * prod_list sh) d))"

fun key_obj :: "pykey \<Rightarrow> obj" where
  "key_obj (KInt i) = OInt i"
| "key_obj (KStr s) = OStr s"

fun getitem_obj :: "obj \<Rightarrow> nat \<Rightarrow> store \<Rightarrow> (error + addr) \<times> store" where
  "getitem_obj ONone i = st_raise TypeError"
| "getitem_obj (OInt k) i = st_raise TypeError"
| "getitem_obj (OStr s) i = (if i < length s then st_new (OStr [s ! i]) else st_raise IndexError)"
| "getitem_obj (OTensor [] d) i = st_raise IndexError"
| "getitem_obj (OTensor (n # sh) d) i =
     (if i < n then st_new (slice_obj sh d i) else st_raise IndexError)"
| "getitem_obj (OTuple xs) i = (if i < length xs then st_return (xs ! i) else st_raise IndexError)"
| "getitem_obj (OList xs) i = (if i < length xs then st_return (xs ! i) else st_raise IndexError)"
| "getitem_obj (ODict kvs) i =
     (case map_of kvs (KInt (int i)) of None \<Rightarrow> st_raise KeyError | Some v \<Rightarrow> st_return v)"

definition st_getitem :: "addr \<Rightarrow> nat \<Rightarrow> store \<Rightarrow> (error + addr) \<times> store" where
  "st_getitem a i h = getitem_obj (obj_at h a) i h"

fun iter_obj :: "obj \<Rightarrow> store \<Rightarrow> (error + addr list) \<times> store" where
  "iter_obj ONone = st_raise TypeError"
| "iter_obj (OInt k) = st_raise TypeError"
| "iter_obj (OStr s) = st_new_all (map (\<lambda>c. OStr [c]) s)"
| "iter_obj (OTensor [] d) = st_raise TypeError"
| "iter_obj (OTensor (n # sh) d) = st_new_all (map (slice_obj sh d) [0..<n])"
| "iter_obj (OTuple xs) = st_return xs"
| "iter_obj (OList xs) = st_return xs"
| "iter_obj (ODict kvs) = st_new_all (map (\<lambda>kv. key_obj (fst kv)) kvs)"

definition st_iter :: "addr \<Rightarrow> store \<Rightarrow> (error + addr list) \<times> store" where
  "st_iter a h = iter_obj (obj_at h a) h"

text \<open>Unpacking into \<^verbatim>\<open>img, target\<close> and the two comprehensions, each of which makes a new list.\<close>

definition st_unpack2 :: "addr \<Rightarrow> store \<Rightarrow> (error + addr \<times> addr) \<times> store" where
  "st_unpack2 s =
     st_bind (st_iter s) (\<lambda>vs. case vs of [a, b] \<Rightarrow> st_return (a, b) | _ \<Rightarrow> st_raise ValueError)"

fun st_comprehension ::
  "(addr \<times> addr \<Rightarrow> addr) \<Rightarrow> addr list \<Rightarrow> store \<Rightarrow> (error + addr list) \<times> store" where
  "st_comprehension f [] = st_return []"
| "st_comprehension f (s # ss) =
     st_bind (st_unpack2 s) (\<lambda>p.
     st_bind (st_comprehension f ss) (\<lambda>vs.
     st_return (f p # vs)))"

definition st_imgs_of :: "addr \<Rightarrow> store \<Rightarrow> (error + addr) \<times> store" where
  "st_imgs_of batch =
     st_bind (st_iter batch) (\<lambda>ss.
     st_bind (st_comprehension fst ss) (\<lambda>imgs.
     st_new (OList imgs)))"

definition st_targets_of :: "addr \<Rightarrow> store \<Rightarrow> (error + addr) \<times> store" where
  "st_targets_of batch =
     st_bind (st_iter batch) (\<lambda>ss.
     st_bind (st_comprehension snd ss) (\<lambda>targets.
     st_new (OList targets)))"

text \<open>
  Modelled from the spec: \<^verbatim>\<open>torch.stack\<close> on the store, with the same outcomes as
  \<open>torch_stack\<close> above; the stacked array is a new object holding a copy of the elements.
\<close>

fun is_tensor_obj :: "obj \<Rightarrow> bool" where
  "is_tensor_obj (OTensor sh d) = True"
| "is_tensor_obj ob = False"

fun shape_obj :: "obj \<Rightarrow> nat list" where
  "shape_obj (OTensor sh d) = sh"
| "shape_obj ob = []"

fun data_obj :: "obj \<Rightarrow> real list" where
  "data_obj (OTensor sh d) = d"
| "data_obj ob = []"

definition stack_objs :: "obj list \<Rightarrow> store \<Rightarrow> (error + addr) \<times> store" where
  "stack_objs ts =
     (case ts of
        [] \<Rightarrow> st_raise RuntimeError
      | t # rest \<Rightarrow>
          if \<not> list_all is_tensor_obj ts then st_raise TypeError
          else if \<not> list_all (\<lambda>x. shape_obj x = shape_obj t) ts then st_raise RuntimeError
          else st_new (OTensor (length ts # shape_obj t) (concat (map data_obj ts))))"

definition st_torch_stack :: "addr \<Rightarrow> store \<Rightarrow> (error + addr) \<times> store" where
  "st_torch_stack a h =
     (case obj_at h a of
        OList ts \<Rightarrow> stack_objs (map (obj_at h) ts) h
      | OTuple ts \<Rightarrow> stack_objs (map (obj_at h) ts) h
      | ob \<Rightarrow> st_raise TypeError h)"

text \<open>
  The test, the two bodies and the two functions, statement by statement as above. The
  default resolver is the parameter \<open>dc\<close>, a computation on the store.
\<close>

definition st_dispatch :: "addr \<Rightarrow> store \<Rightarrow> (error + bool) \<times> store" where
  "st_dispatch batch =
     st_bind (st_isinstance_list batch) (\<lambda>is_list.
       if \<not> is_list then st_return False
       else
         st_bind (st_getitem batch 0) (\<lambda>first.
         st_bind (st_len first) (\<lambda>n.
           if n \<noteq> 2 then st_return False
           else
             st_bind (st_getitem batch 0) (\<lambda>first'.
             st_bind (st_getitem first' 1) (\<lambda>second.
             st_isinstance_dict second)))))"

definition st_collate_branch :: "addr \<Rightarrow> store \<Rightarrow> (error + addr) \<times> store" where
  "st_collate_branch batch =
     st_bind (st_imgs_of batch) (\<lambda>is.
     st_bind (st_torch_stack is) (\<lambda>imgs.
     st_bind (st_targets_of batch) (\<lambda>targets.
     st_new (OTuple [imgs, targets]))))"

definition st_detection_branch :: "addr \<Rightarrow> store \<Rightarrow> (error + addr) \<times> store" where
  "st_detection_branch batch =
     st_bind (st_imgs_of batch) (\<lambda>imgs.
     st_bind (st_targets_of batch) (\<lambda>targets.
     st_new (OTuple [imgs, targets])))"

definition st_custom_collate ::
  "(addr \<Rightarrow> store \<Rightarrow> (error + addr) \<times> store) \<Rightarrow> addr \<Rightarrow> store \<Rightarrow> (error + addr) \<times> store" where
  "st_custom_collate dc batch =
     st_bind (st_dispatch batch) (\<lambda>matched.
       if matched then st_collate_branch batch else dc batch)"

definition st_custom_detection_collate ::
  "(addr \<Rightarrow> store \<Rightarrow> (error + addr) \<times> store) \<Rightarrow> addr \<Rightarrow> store \<Rightarrow> (error + addr) \<times> store" where
  "st_custom_detection_collate dc batch =
     st_bind (st_dispatch batch) (\<lambda>matched.
       if matched then st_detection_branch batch else dc batch)"

text \<open>
  A computation leaves the store's objects unchanged when the store it returns starts with
  the store it was given: nothing is written, objects are only added.
\<close>

definition frame :: "(store \<Rightarrow> 'r \<times> store) \<Rightarrow> bool" where
  "frame m \<longleftrightarrow> (\<forall>h. prefix h (snd (m h)))"

text \<open>
  A batch in the store whose samples are 2-tuples, the first with a mapping as its second
  element; the addresses a sample holds; arrays that can be stacked.
\<close>

fun tuple_refs :: "obj \<Rightarrow> addr list" where
  "tuple_refs (OTuple xs) = xs"
| "tuple_refs ob = []"

definition tuple2_at :: "store \<Rightarrow> addr \<Rightarrow> bool" where
  "tuple2_at h s \<longleftrightarrow> (case obj_at h s of OTuple [x, t] \<Rightarrow> True | _ \<Rightarrow> False)"

definition input_ref :: "store \<Rightarrow> addr \<Rightarrow> addr" where
  "input_ref h s = hd (tuple_refs (obj_at h s))"

definition target_ref :: "store \<Rightarrow> addr \<Rightarrow> addr" where
  "target_ref h s = hd (tl (tuple_refs (obj_at h s)))"

definition matched_at :: "store \<Rightarrow> addr \<Rightarrow> addr list \<Rightarrow> bool" where
  "matched_at h batch ss \<longleftrightarrow>
     obj_at h batch = OList ss \<and> ss \<noteq> [] \<and> list_all (tuple2_at h) ss
     \<and> is_dict_obj (obj_at h (target_ref h (hd ss)))"

definition stacked_obj :: "obj list \<Rightarrow> obj" where
  "stacked_obj ts = OTensor (length ts # shape_obj (hd ts)) (concat (map data_obj ts))"

definition uniform_objs :: "obj list \<Rightarrow> bool" where
  "uniform_objs ts \<longleftrightarrow>
     ts \<noteq> [] \<and> list_all is_tensor_obj ts \<and> list_all (\<lambda>x. shape_obj x = shape_obj (hd ts)) ts"

text \<open>
  The value an address stands for, read to a given depth: the link between the store and
  the values of the first translation. A store is closed when every address held by one of
  its objects is an address of the store.
\<close>

fun refs_of :: "obj \<Rightarrow> addr list" where
  "refs_of (OTuple xs) = xs"
| "refs_of (OList xs) = xs"
| "refs_of (ODict kvs) = map snd kvs"
| "refs_of ob = []"

definition closed :: "store \<Rightarrow> bool" where
  "closed h \<longleftrightarrow> list_all (\<lambda>ob. list_all (\<lambda>r. r < length h) (refs_of ob)) h"

fun reify :: "nat \<Rightarrow> store \<Rightarrow> addr \<Rightarrow> pyval" where
  "reify 0 h a = PNone"
| "reify (Suc n) h a =
     (case obj_at h a of
        ONone \<Rightarrow> PNone
      | OInt i \<Rightarrow> PInt i
      | OStr s \<Rightarrow> PStr s
      | OTensor sh d \<Rightarrow> PTensor sh d
      | OTuple xs \<Rightarrow> PTuple (map (reify n h) xs)
      | OList xs \<Rightarrow> PList (map (reify n h) xs)
      | ODict kvs \<Rightarrow> PDict (map (\<lambda>kv. (fst kv, reify n h (snd kv))) kvs))"

declare reify.simps(2) [simp del]

section \<open>Properties\<close>

subsection \<open>The test\<close>

lemma dispatch_empty: "dispatch (PList []) = Inl IndexError"
  by (simp add: dispatch_def)

lemma dispatch_Cons:
  "dispatch (PList (first # rest)) =
     (case py_len first of
        Inl e \<Rightarrow> Inl e
      | Inr n \<Rightarrow>
          if n \<noteq> 2 then Inr False
          else (case py_getitem first 1 of
                  Inl e \<Rightarrow> Inl e
                | Inr second \<Rightarrow> Inr (isinstance_dict second)))"
  by (simp add: dispatch_def split: sum.splits)

lemma dispatch_attributes:
  "dispatch batch =
     (if \<not> isinstance_list batch then Inr False
      else (case len_of_first batch of
              Inl e \<Rightarrow> Inl e
            | Inr n \<Rightarrow> if n \<noteq> 2 then Inr False else second_of_first_is_dict batch))"
  by (simp add: dispatch_def len_of_first_def second_of_first_is_dict_def split: sum.splits)

lemma dispatch_True_iff:
  "dispatch batch = Inr True \<longleftrightarrow>
     (\<exists>first rest second. batch = PList (first # rest) \<and> py_len first = Inr 2
        \<and> py_getitem first 1 = Inr second \<and> isinstance_dict second)"
proof (cases batch)
  case (PList ss)
  show ?thesis
  proof (cases ss)
    case Nil
    with PList show ?thesis by (simp add: dispatch_def)
  next
    case (Cons first rest)
    with PList show ?thesis
      by (auto simp add: dispatch_Cons split: sum.splits if_splits)
  qed
qed (simp_all add: dispatch_def)

lemma dispatch_False_iff:
  "dispatch batch = Inr False \<longleftrightarrow>
     (\<not> isinstance_list batch
      \<or> (\<exists>first rest n. batch = PList (first # rest) \<and> py_len first = Inr n \<and> n \<noteq> 2)
      \<or> (\<exists>first rest second. batch = PList (first # rest) \<and> py_len first = Inr 2
            \<and> py_getitem first 1 = Inr second \<and> \<not> isinstance_dict second))"
proof (cases batch)
  case (PList ss)
  show ?thesis
  proof (cases ss)
    case Nil
    with PList show ?thesis by (simp add: dispatch_def)
  next
    case (Cons first rest)
    with PList show ?thesis
      by (auto simp add: dispatch_Cons split: sum.splits if_splits)
  qed
qed (simp_all add: dispatch_def)

lemma tuple2_len: "is_tuple2 s \<Longrightarrow> py_len s = Inr 2"
  by (cases s rule: is_tuple2.cases) simp_all

lemma tuple2_second: "is_tuple2 s \<Longrightarrow> py_getitem s (Suc 0) = Inr (annotation_of s)"
  by (cases s rule: is_tuple2.cases) simp_all

lemma dispatch_tuple2:
  "is_tuple2 s \<Longrightarrow> dispatch (PList (s # rest)) = Inr (isinstance_dict (annotation_of s))"
  by (simp add: dispatch_Cons tuple2_len tuple2_second)

lemma list_all_hd: "ss \<noteq> [] \<Longrightarrow> list_all P ss \<Longrightarrow> P (hd ss)"
  by (cases ss) simp_all

lemma dispatch_samples:
  assumes "samples \<noteq> []" and "is_tuple2 (hd samples)"
    and "isinstance_dict (annotation_of (hd samples))"
  shows "dispatch (PList samples) = Inr True"
proof -
  from assms(1) have "samples = hd samples # tl samples" by simp
  then have "dispatch (PList samples) = dispatch (PList (hd samples # tl samples))" by simp
  also have "\<dots> = Inr (isinstance_dict (annotation_of (hd samples)))"
    using assms(2) by (rule dispatch_tuple2)
  finally show ?thesis using assms(3) by simp
qed

lemma custom_collate_matched:
  "dispatch batch = Inr True \<Longrightarrow> custom_collate dc batch = collate_branch batch"
  by (simp add: custom_collate_def)

lemma custom_detection_collate_matched:
  "dispatch batch = Inr True \<Longrightarrow> custom_detection_collate dc batch = detection_branch batch"
  by (simp add: custom_detection_collate_def)

subsection \<open>The two branches on a list of 2-tuples\<close>

lemma unpack2_tuple2: "is_tuple2 s \<Longrightarrow> unpack2 s = Inr (input_of s, annotation_of s)"
  by (cases s rule: is_tuple2.cases) (simp_all add: unpack2_def)

lemma comprehension_tuple2:
  "list_all is_tuple2 ss \<Longrightarrow>
   comprehension f ss = Inr (map (\<lambda>s. f (input_of s, annotation_of s)) ss)"
  by (induction ss) (simp_all add: unpack2_tuple2)

lemma imgs_of_tuple2:
  "list_all is_tuple2 ss \<Longrightarrow> imgs_of (PList ss) = Inr (map input_of ss)"
  by (simp add: imgs_of_def comprehension_tuple2)

lemma targets_of_tuple2:
  "list_all is_tuple2 ss \<Longrightarrow> targets_of (PList ss) = Inr (map annotation_of ss)"
  by (simp add: targets_of_def comprehension_tuple2)

lemma detection_branch_tuple2:
  "list_all is_tuple2 ss \<Longrightarrow>
   detection_branch (PList ss) =
     Inr (PTuple [PList (map input_of ss), PList (map annotation_of ss)])"
  by (simp add: detection_branch_def imgs_of_tuple2 targets_of_tuple2)

lemma collate_branch_tuple2:
  "list_all is_tuple2 ss \<Longrightarrow>
   collate_branch (PList ss) =
     (case torch_stack (map input_of ss) of
        Inl e \<Rightarrow> Inl e
      | Inr imgs \<Rightarrow> Inr (PTuple [imgs, PList (map annotation_of ss)]))"
  by (simp add: collate_branch_def imgs_of_tuple2 targets_of_tuple2 split: sum.splits)

lemma torch_stack_uniform: "uniform_tensors ts \<Longrightarrow> torch_stack ts = Inr (stacked ts)"
  by (cases ts) (simp_all add: uniform_tensors_def torch_stack_def stacked_def)

lemma torch_stack_cases:
  "ts \<noteq> [] \<Longrightarrow>
   torch_stack ts =
     (if uniform_tensors ts then Inr (stacked ts)
      else Inl (if list_all is_tensor ts then RuntimeError else TypeError))"
  by (cases ts) (simp_all add: uniform_tensors_def torch_stack_def stacked_def)

lemma detection_on_samples:
  assumes "samples \<noteq> []" and "list_all is_tuple2 samples"
    and "isinstance_dict (annotation_of (hd samples))"
  shows "custom_detection_collate dc (PList samples) =
           Inr (PTuple [PList (map input_of samples), PList (map annotation_of samples)])"
proof -
  from assms(1,2) have "is_tuple2 (hd samples)" by (rule list_all_hd)
  with assms(1,3) have "dispatch (PList samples) = Inr True"
    by (simp add: dispatch_samples)
  then have "custom_detection_collate dc (PList samples) = detection_branch (PList samples)"
    by (rule custom_detection_collate_matched)
  with assms(2) show ?thesis by (simp add: detection_branch_tuple2)
qed

lemma collate_on_samples:
  assumes "samples \<noteq> []" and "list_all is_tuple2 samples"
    and "isinstance_dict (annotation_of (hd samples))"
  shows "custom_collate dc (PList samples) =
           (case torch_stack (map input_of samples) of
              Inl e \<Rightarrow> Inl e
            | Inr imgs \<Rightarrow> Inr (PTuple [imgs, PList (map annotation_of samples)]))"
proof -
  from assms(1,2) have "is_tuple2 (hd samples)" by (rule list_all_hd)
  with assms(1,3) have "dispatch (PList samples) = Inr True"
    by (simp add: dispatch_samples)
  then have "custom_collate dc (PList samples) = collate_branch (PList samples)"
    by (rule custom_collate_matched)
  with assms(2) show ?thesis by (simp add: collate_branch_tuple2)
qed

subsection \<open>C1: when the custom branch runs and what it returns\<close>

text \<open>
  As stated, C1 fails twice. The custom branch is not taken exactly on non-empty batches
  of 2-tuples: the test reads the first sample only, so a batch whose second sample is the
  integer 7 takes the custom branch all the same. And \<^verbatim>\<open>custom_collate\<close> does not return
  a pair on every such batch: two inputs of shapes (2) and (3) cannot be stacked and the
  call raises.
\<close>

theorem custom_branch_counterexample:
  "dispatch (PList [PTuple [PTensor [1] [0], PDict []], PInt 7]) = Inr True
   \<and> \<not> list_all is_tuple2 [PTuple [PTensor [1] [0], PDict []], PInt 7]
   \<and> list_all is_tuple2
        [PTuple [PTensor [2] [1, 2], PDict []], PTuple [PTensor [3] [3, 4, 5], PDict []]]
   \<and> isinstance_dict (annotation_of (hd [PTuple [PTensor [2] [1, 2], PDict []],
                                           PTuple [PTensor [3] [3, 4, 5], PDict []]]))
   \<and> custom_collate default_collate
        (PList [PTuple [PTensor [2] [1, 2], PDict []], PTuple [PTensor [3] [3, 4, 5], PDict []]])
      = Inl RuntimeError"
  by (simp add: dispatch_def custom_collate_def collate_branch_def imgs_of_def targets_of_def
      unpack2_def torch_stack_def)

text \<open>
  C1, as amended. For every non-empty list of 2-element tuples whose first sample's second
  element is a mapping, both functions take the custom branch;
  \<^verbatim>\<open>custom_detection_collate\<close> returns the pair of the list of inputs and the list of
  annotations, in sample order; \<^verbatim>\<open>custom_collate\<close> returns the stack of the inputs with the
  same list of annotations when the stack succeeds, and the stack's error otherwise. The
  custom branch is taken exactly when the batch is a non-empty list whose first sample has
  length 2 and whose first sample's element at index 1 is a mapping, whatever the later
  samples are.
\<close>

theorem custom_branch_contract:
  assumes "samples \<noteq> []" and "list_all is_tuple2 samples"
    and "isinstance_dict (annotation_of (hd samples))"
  shows "dispatch (PList samples) = Inr True
    \<and> custom_detection_collate dc (PList samples) =
        Inr (PTuple [PList (map input_of samples), PList (map annotation_of samples)])
    \<and> custom_collate dc (PList samples) =
        (case torch_stack (map input_of samples) of
           Inl e \<Rightarrow> Inl e
         | Inr imgs \<Rightarrow> Inr (PTuple [imgs, PList (map annotation_of samples)]))
    \<and> (dispatch batch = Inr True \<longleftrightarrow>
         (\<exists>first rest second. batch = PList (first # rest) \<and> py_len first = Inr 2
            \<and> py_getitem first 1 = Inr second \<and> isinstance_dict second))"
proof -
  from assms(1,2) have "is_tuple2 (hd samples)" by (rule list_all_hd)
  with assms(1,3) have matched: "dispatch (PList samples) = Inr True"
    by (simp add: dispatch_samples)
  have listed: "custom_detection_collate dc (PList samples) =
      Inr (PTuple [PList (map input_of samples), PList (map annotation_of samples)])"
    using assms by (rule detection_on_samples)
  have stack: "custom_collate dc (PList samples) =
      (case torch_stack (map input_of samples) of
         Inl e \<Rightarrow> Inl e
       | Inr imgs \<Rightarrow> Inr (PTuple [imgs, PList (map annotation_of samples)]))"
    using assms by (rule collate_on_samples)
  have exact: "dispatch batch = Inr True \<longleftrightarrow>
      (\<exists>first rest second. batch = PList (first # rest) \<and> py_len first = Inr 2
         \<and> py_getitem first 1 = Inr second \<and> isinstance_dict second)"
    by (rule dispatch_True_iff)
  from matched listed stack exact show ?thesis by (intro conjI)
qed

theorem custom_branch_contract_witness:
  "dispatch (PList [PTuple [PTensor [1, 2] [1, 2], PDict [(KStr ''label'', PInt 1)]],
                    PTuple [PTensor [1, 2] [3, 4], PDict [(KStr ''label'', PInt 5)]]]) = Inr True
   \<and> custom_detection_collate default_collate
       (PList [PTuple [PTensor [1, 2] [1, 2], PDict [(KStr ''label'', PInt 1)]],
               PTuple [PTensor [1, 2] [3, 4], PDict [(KStr ''label'', PInt 5)]]])
     = Inr (PTuple [PList [PTensor [1, 2] [1, 2], PTensor [1, 2] [3, 4]],
                    PList [PDict [(KStr ''label'', PInt 1)], PDict [(KStr ''label'', PInt 5)]]])
   \<and> custom_collate default_collate
       (PList [PTuple [PTensor [1, 2] [1, 2], PDict [(KStr ''label'', PInt 1)]],
               PTuple [PTensor [1, 2] [3, 4], PDict [(KStr ''label'', PInt 5)]]])
     = Inr (PTuple [PTensor [2, 1, 2] [1, 2, 3, 4],
                    PList [PDict [(KStr ''label'', PInt 1)], PDict [(KStr ''label'', PInt 5)]]])"
  using custom_branch_contract
    [of "[PTuple [PTensor [1, 2] [1, 2], PDict [(KStr ''label'', PInt 1)]],
          PTuple [PTensor [1, 2] [3, 4], PDict [(KStr ''label'', PInt 5)]]]"
        default_collate PNone]
  by (simp add: torch_stack_def)

subsection \<open>C2: the per-sample mappings come back unchanged\<close>

text \<open>
  C2. For every non-empty list of 2-element tuples whose second elements are mappings
  (whatever the lengths of the arrays they hold), \<^verbatim>\<open>custom_detection_collate\<close> returns the
  list of the original inputs as its first component and the list of exactly the original
  mappings as its second, both in the order of the batch: the \<open>i\<close>-th target is the
  annotation of the \<open>i\<close>-th sample.
\<close>

theorem detection_collate_keeps_mappings:
  assumes "samples \<noteq> []"
    and "list_all (\<lambda>s. is_tuple2 s \<and> isinstance_dict (annotation_of s)) samples"
  shows "\<exists>imgs targets.
           custom_detection_collate dc (PList samples) = Inr (PTuple [PList imgs, PList targets])
           \<and> imgs = map input_of samples \<and> targets = map annotation_of samples
           \<and> length targets = length samples \<and> list_all isinstance_dict targets
           \<and> list_all (\<lambda>i. targets ! i = annotation_of (samples ! i)
                           \<and> imgs ! i = input_of (samples ! i)) [0..<length samples]"
proof -
  from assms(2) have pairs: "list_all is_tuple2 samples"
    and dicts: "list_all (\<lambda>s. isinstance_dict (annotation_of s)) samples"
    by (simp_all add: list_all_iff)
  from assms(1) dicts have "isinstance_dict (annotation_of (hd samples))"
    by (rule list_all_hd)
  with assms(1) pairs have "custom_detection_collate dc (PList samples) =
      Inr (PTuple [PList (map input_of samples), PList (map annotation_of samples)])"
    by (rule detection_on_samples)
  moreover from dicts have "list_all isinstance_dict (map annotation_of samples)"
    by (simp add: list_all_iff)
  moreover have "list_all (\<lambda>i. map annotation_of samples ! i = annotation_of (samples ! i)
      \<and> map input_of samples ! i = input_of (samples ! i)) [0..<length samples]"
    by (simp add: list_all_iff)
  ultimately show ?thesis by simp
qed

theorem detection_collate_keeps_mappings_witness:
  "custom_detection_collate (\<lambda>b. Inl RuntimeError)
     (PList [PTuple [PTensor [2] [1, 2], PDict [(KStr ''labels'', PTensor [1] [7])]],
             PTuple [PTensor [2] [3, 4], PDict [(KStr ''labels'', PTensor [3] [8, 9, 10])]]])
   = Inr (PTuple [PList [PTensor [2] [1, 2], PTensor [2] [3, 4]],
                  PList [PDict [(KStr ''labels'', PTensor [1] [7])],
                         PDict [(KStr ''labels'', PTensor [3] [8, 9, 10])]]])"
  using detection_collate_keeps_mappings
    [of "[PTuple [PTensor [2] [1, 2], PDict [(KStr ''labels'', PTensor [1] [7])]],
          PTuple [PTensor [2] [3, 4], PDict [(KStr ''labels'', PTensor [3] [8, 9, 10])]]]"
        "\<lambda>b. Inl RuntimeError"]
  by simp

subsection \<open>C3: the default resolver is not reached\<close>

text \<open>
  C3. For every non-empty list of 2-element tuples whose first sample's second element is
  a mapping, \<^verbatim>\<open>custom_detection_collate\<close> takes the custom branch and returns normally,
  whatever the default resolver would do and whatever the lengths of the fields of the
  mappings: the result is the same with a resolver that always raises the shape-mismatch
  error.
\<close>

theorem detection_collate_avoids_default:
  assumes "samples \<noteq> []" and "list_all is_tuple2 samples"
    and "isinstance_dict (annotation_of (hd samples))"
  shows "dispatch (PList samples) = Inr True
    \<and> custom_detection_collate dc (PList samples) = detection_branch (PList samples)
    \<and> custom_detection_collate dc (PList samples) =
        custom_detection_collate (\<lambda>b. Inl RuntimeError) (PList samples)
    \<and> custom_detection_collate dc (PList samples) =
        Inr (PTuple [PList (map input_of samples), PList (map annotation_of samples)])"
proof -
  from assms(1,2) have "is_tuple2 (hd samples)" by (rule list_all_hd)
  with assms(1,3) have matched: "dispatch (PList samples) = Inr True"
    by (simp add: dispatch_samples)
  then have branch: "custom_detection_collate d (PList samples) = detection_branch (PList samples)"
    for d
    by (rule custom_detection_collate_matched)
  from assms(2) have "detection_branch (PList samples) =
      Inr (PTuple [PList (map input_of samples), PList (map annotation_of samples)])"
    by (rule detection_branch_tuple2)
  with matched branch show ?thesis by simp
qed

theorem detection_collate_avoids_default_witness:
  "dispatch
     (PList [PTuple [PTensor [1] [0], PDict [(KStr ''boxes'', PTensor [1, 4] [1, 2, 3, 4])]],
             PTuple [PTensor [1] [1], PDict [(KStr ''boxes'', PTensor [2, 4] [1, 2, 3, 4, 5, 6, 7, 8])]]])
     = Inr True
   \<and> custom_detection_collate (\<lambda>b. Inl RuntimeError)
       (PList [PTuple [PTensor [1] [0], PDict [(KStr ''boxes'', PTensor [1, 4] [1, 2, 3, 4])]],
               PTuple [PTensor [1] [1], PDict [(KStr ''boxes'', PTensor [2, 4] [1, 2, 3, 4, 5, 6, 7, 8])]]])
     = Inr (PTuple [PList [PTensor [1] [0], PTensor [1] [1]],
                    PList [PDict [(KStr ''boxes'', PTensor [1, 4] [1, 2, 3, 4])],
                           PDict [(KStr ''boxes'', PTensor [2, 4] [1, 2, 3, 4, 5, 6, 7, 8])]]])"
  using detection_collate_avoids_default
    [of "[PTuple [PTensor [1] [0], PDict [(KStr ''boxes'', PTensor [1, 4] [1, 2, 3, 4])]],
          PTuple [PTensor [1] [1], PDict [(KStr ''boxes'', PTensor [2, 4] [1, 2, 3, 4, 5, 6, 7, 8])]]]"
        "\<lambda>b. Inl RuntimeError"]
  by auto

subsection \<open>C4: stacked inputs against listed inputs\<close>

text \<open>
  As stated, C4 fails on a matched batch whose inputs have different shapes, (1, 2) and
  (2, 1): \<^verbatim>\<open>custom_collate\<close> raises the stack's error and returns no targets, while
  \<^verbatim>\<open>custom_detection_collate\<close> returns both lists.
\<close>

theorem stacked_versus_listed_counterexample:
  "list_all is_tuple2
     [PTuple [PTensor [1, 2] [1, 2], PDict []], PTuple [PTensor [2, 1] [3, 4], PDict []]]
   \<and> isinstance_dict (annotation_of (hd [PTuple [PTensor [1, 2] [1, 2], PDict []],
                                           PTuple [PTensor [2, 1] [3, 4], PDict []]]))
   \<and> custom_collate default_collate
        (PList [PTuple [PTensor [1, 2] [1, 2], PDict []], PTuple [PTensor [2, 1] [3, 4], PDict []]])
      = Inl RuntimeError
   \<and> custom_detection_collate default_collate
        (PList [PTuple [PTensor [1, 2] [1, 2], PDict []], PTuple [PTensor [2, 1] [3, 4], PDict []]])
      = Inr (PTuple [PList [PTensor [1, 2] [1, 2], PTensor [2, 1] [3, 4]], PList [PDict [], PDict []]])"
  by (simp add: dispatch_def custom_collate_def custom_detection_collate_def collate_branch_def
      detection_branch_def imgs_of_def targets_of_def unpack2_def torch_stack_def)

text \<open>
  C4, as amended. On a matched batch (a non-empty list of 2-tuples whose first sample's
  second element is a mapping) \<^verbatim>\<open>custom_detection_collate\<close> returns the inputs as a plain
  list. \<^verbatim>\<open>custom_collate\<close> returns them stacked into one array with a new leading
  dimension, the batch size, and with the same targets list, when the inputs are arrays of
  one shape; otherwise it raises (\<^verbatim>\<open>RuntimeError\<close> for arrays of different shapes,
  \<^verbatim>\<open>TypeError\<close> for an input that is not an array).
\<close>

theorem stacked_versus_listed:
  assumes "samples \<noteq> []" and "list_all is_tuple2 samples"
    and "isinstance_dict (annotation_of (hd samples))"
  shows "custom_collate dc (PList samples) =
           (if uniform_tensors (map input_of samples)
            then Inr (PTuple [stacked (map input_of samples), PList (map annotation_of samples)])
            else Inl (if list_all is_tensor (map input_of samples) then RuntimeError else TypeError))
         \<and> custom_detection_collate dc (PList samples) =
             Inr (PTuple [PList (map input_of samples), PList (map annotation_of samples)])
         \<and> stacked (map input_of samples) =
             PTensor (length samples # tensor_shape (input_of (hd samples)))
               (concat (map (\<lambda>s. tensor_data (input_of s)) samples))"
proof -
  from assms(1) have ne: "map input_of samples \<noteq> []" by simp
  have "custom_collate dc (PList samples) =
      (case torch_stack (map input_of samples) of
         Inl e \<Rightarrow> Inl e
       | Inr imgs \<Rightarrow> Inr (PTuple [imgs, PList (map annotation_of samples)]))"
    using assms by (rule collate_on_samples)
  then have stack: "custom_collate dc (PList samples) =
      (if uniform_tensors (map input_of samples)
       then Inr (PTuple [stacked (map input_of samples), PList (map annotation_of samples)])
       else Inl (if list_all is_tensor (map input_of samples) then RuntimeError else TypeError))"
    by (simp add: torch_stack_cases [OF ne])
  have listed: "custom_detection_collate dc (PList samples) =
      Inr (PTuple [PList (map input_of samples), PList (map annotation_of samples)])"
    using assms by (rule detection_on_samples)
  have shape: "stacked (map input_of samples) =
      PTensor (length samples # tensor_shape (input_of (hd samples)))
        (concat (map (\<lambda>s. tensor_data (input_of s)) samples))"
    using assms(1) by (simp add: stacked_def hd_map comp_def)
  from stack listed shape show ?thesis by (intro conjI)
qed

theorem stacked_versus_listed_witness:
  "custom_collate (\<lambda>b. Inl RuntimeError)
     (PList [PTuple [PTensor [1, 2] [1, 2], PDict [(KStr ''label'', PInt 1)]],
             PTuple [PTensor [1, 2] [3, 4], PDict [(KStr ''label'', PInt 5)]]])
   = Inr (PTuple [PTensor [2, 1, 2] [1, 2, 3, 4],
                  PList [PDict [(KStr ''label'', PInt 1)], PDict [(KStr ''label'', PInt 5)]]])
   \<and> custom_detection_collate (\<lambda>b. Inl RuntimeError)
     (PList [PTuple [PTensor [1, 2] [1, 2], PDict [(KStr ''label'', PInt 1)]],
             PTuple [PTensor [1, 2] [3, 4], PDict [(KStr ''label'', PInt 5)]]])
   = Inr (PTuple [PList [PTensor [1, 2] [1, 2], PTensor [1, 2] [3, 4]],
                  PList [PDict [(KStr ''label'', PInt 1)], PDict [(KStr ''label'', PInt 5)]]])"
  using stacked_versus_listed
    [of "[PTuple [PTensor [1, 2] [1, 2], PDict [(KStr ''label'', PInt 1)]],
          PTuple [PTensor [1, 2] [3, 4], PDict [(KStr ''label'', PInt 5)]]]"
        "\<lambda>b. Inl RuntimeError"]
  by (simp add: uniform_tensors_def)

subsection \<open>C5: the fallback\<close>

text \<open>
  As stated, C5 fails on a list of integers: the batch is a list, its first sample 3 is not
  of length 2, and the default resolver returns the array of the two integers, but both
  custom functions raise \<^verbatim>\<open>TypeError\<close> from \<^verbatim>\<open>len(batch[0])\<close> and never reach the
  \<^verbatim>\<open>else\<close>.
\<close>

theorem fallback_counterexample:
  "isinstance_list (PList [PInt 3, PInt 5])
   \<and> py_len (PInt 3) \<noteq> Inr 2
   \<and> default_collate (PList [PInt 3, PInt 5]) = Inr (PTensor [2] [3, 5])
   \<and> custom_collate default_collate (PList [PInt 3, PInt 5]) = Inl TypeError
   \<and> custom_detection_collate default_collate (PList [PInt 3, PInt 5]) = Inl TypeError"
  by (simp add: default_collate_def custom_collate_def custom_detection_collate_def dispatch_def)

text \<open>
  C5, as amended. For every batch on which the test evaluates to false, that is the batch
  is not a list, or it is a non-empty list whose first sample has a length and that length
  is not 2, or it is a non-empty list whose first sample has length 2 and an element at
  index 1 that is not a mapping, both functions return exactly what the default resolver
  returns on the batch, whatever the resolver is.
\<close>

theorem fallback_is_default:
  assumes "\<not> isinstance_list batch
      \<or> (\<exists>first rest n. batch = PList (first # rest) \<and> py_len first = Inr n \<and> n \<noteq> 2)
      \<or> (\<exists>first rest second. batch = PList (first # rest) \<and> py_len first = Inr 2
            \<and> py_getitem first 1 = Inr second \<and> \<not> isinstance_dict second)"
  shows "dispatch batch = Inr False
         \<and> custom_collate dc batch = dc batch
         \<and> custom_detection_collate dc batch = dc batch"
proof -
  from assms have "dispatch batch = Inr False"
    by (simp only: dispatch_False_iff)
  then show ?thesis
    by (simp add: custom_collate_def custom_detection_collate_def)
qed

theorem fallback_is_default_witness:
  "custom_collate default_collate
     (PList [PTuple [PTensor [2] [1, 2], PInt 3], PTuple [PTensor [2] [3, 4], PInt 5]])
   = default_collate
       (PList [PTuple [PTensor [2] [1, 2], PInt 3], PTuple [PTensor [2] [3, 4], PInt 5]])
   \<and> custom_detection_collate default_collate
     (PList [PTuple [PTensor [2] [1, 2], PInt 3], PTuple [PTensor [2] [3, 4], PInt 5]])
   = default_collate
       (PList [PTuple [PTensor [2] [1, 2], PInt 3], PTuple [PTensor [2] [3, 4], PInt 5]])"
proof -
  have "\<exists>first rest second.
      PList [PTuple [PTensor [2] [1, 2], PInt 3], PTuple [PTensor [2] [3, 4], PInt 5]]
        = PList (first # rest)
      \<and> py_len first = Inr 2 \<and> py_getitem first 1 = Inr second \<and> \<not> isinstance_dict second"
    by simp
  then show ?thesis
    using fallback_is_default
      [of "PList [PTuple [PTensor [2] [1, 2], PInt 3], PTuple [PTensor [2] [3, 4], PInt 5]]"
          default_collate]
    by blast
qed

subsection \<open>C6: the default resolver merges mappings\<close>

lemma column_tuple2:
  assumes "list_all is_tuple2 ss"
  shows "column 0 ss = Inr (map input_of ss) \<and> column (Suc 0) ss = Inr (map annotation_of ss)"
  using assms
proof (induction ss)
  case Nil
  show ?case by (simp add: column_def)
next
  case (Cons s ss)
  then have s: "is_tuple2 s" and rest: "list_all is_tuple2 ss" by simp_all
  from Cons.IH [OF rest] have ih0: "column 0 ss = Inr (map input_of ss)"
    and ih1: "column (Suc 0) ss = Inr (map annotation_of ss)"
    by simp_all
  from s obtain x a where sx: "s = PTuple [x, a]"
    by (cases s rule: is_tuple2.cases) simp_all
  from ih0 sx have "column 0 (s # ss) = Inr (map input_of (s # ss))"
    by (simp add: column_def)
  moreover from ih1 sx have "column (Suc 0) (s # ss) = Inr (map annotation_of (s # ss))"
    by (simp add: column_def)
  ultimately show ?case by simp
qed

lemma tuple2_lengths:
  "list_all is_tuple2 ss \<Longrightarrow>
   list_all (\<lambda>s. map_option length (seq_items s) = Some (Suc (Suc 0))) ss"
proof (induction ss)
  case Nil
  show ?case by simp
next
  case (Cons r ss)
  then show ?case by (cases r rule: is_tuple2.cases) simp_all
qed

lemma collate_uniform:
  assumes "uniform_tensors ts"
  shows "collate ts = Inr (stacked ts)"
proof -
  from assms obtain t rest where ts: "ts = t # rest"
    by (cases ts) (auto simp: uniform_tensors_def)
  with assms have "is_tensor t" by (simp add: uniform_tensors_def)
  then obtain sh d where "t = PTensor sh d" by (cases t) simp_all
  with ts have "collate ts = torch_stack ts" by simp
  with assms show ?thesis by (simp add: torch_stack_uniform)
qed

lemma field_dict_get:
  "isinstance_dict d \<Longrightarrow> is_tensor (dict_get k d) \<Longrightarrow> field k d = Inr (dict_get k d)"
  by (cases d) (auto simp: dict_get_def split: option.splits)

lemma fields_dict_get:
  "list_all isinstance_dict ds \<Longrightarrow> list_all is_tensor (map (dict_get k) ds) \<Longrightarrow>
   fields k ds = Inr (map (dict_get k) ds)"
  unfolding fields_def
  by (induction ds) (simp_all add: field_dict_get)

lemma collect_map_Inr: "collect (map (\<lambda>k. Inr (f k)) ks) = Inr (map f ks)"
  by (induction ks) simp_all

lemma zip_map_self: "zip ks (map f ks) = map (\<lambda>k. (k, f k)) ks"
  by (induction ks) simp_all

lemma collate_dicts:
  assumes "ds \<noteq> []" and "list_all isinstance_dict ds"
    and "list_all (\<lambda>k. uniform_tensors (map (dict_get k) ds)) (map fst (dict_items (hd ds)))"
  shows "collate ds =
     Inr (PDict (map (\<lambda>k. (k, stacked (map (dict_get k) ds))) (map fst (dict_items (hd ds)))))"
proof -
  from assms(1) obtain d rest where ds: "ds = d # rest" by (cases ds) auto
  with assms(2) obtain kvs where d: "d = PDict kvs" by (cases d) simp_all
  let ?ks = "map fst kvs"
  have each: "(case fields k ds of Inl e \<Rightarrow> Inl e | Inr col \<Rightarrow> collate col)
      = Inr (stacked (map (dict_get k) ds))" if "k \<in> set ?ks" for k
  proof -
    from that assms(3) ds d have u: "uniform_tensors (map (dict_get k) ds)"
      by (auto simp add: list_all_iff)
    then have "list_all is_tensor (map (dict_get k) ds)" by (simp add: uniform_tensors_def)
    with assms(2) have "fields k ds = Inr (map (dict_get k) ds)" by (rule fields_dict_get)
    with u show ?thesis by (simp add: collate_uniform)
  qed
  then have "map (\<lambda>k. case fields k ds of Inl e \<Rightarrow> Inl e | Inr col \<Rightarrow> collate col) ?ks
      = map (\<lambda>k. Inr (stacked (map (dict_get k) ds))) ?ks"
    by (simp cong: map_cong)
  then have "collect (map (\<lambda>k. case fields k ds of Inl e \<Rightarrow> Inl e | Inr col \<Rightarrow> collate col) ?ks)
      = Inr (map (\<lambda>k. stacked (map (dict_get k) ds)) ?ks)"
    by (simp only: collect_map_Inr)
  moreover have "zip ?ks (map (\<lambda>k. stacked (map (dict_get k) ds)) ?ks)
      = map (\<lambda>k. (k, stacked (map (dict_get k) ds))) ?ks"
    by (rule zip_map_self)
  ultimately have "collate (PDict kvs # rest) =
      Inr (PDict (map (\<lambda>k. (k, stacked (map (dict_get k) ds))) ?ks))"
    using ds d by simp
  with ds d show ?thesis by simp
qed

text \<open>
  The model of the resolver against the output the notebook records for section 1.2
  (\<^verbatim>\<open>{'label': tensor([1, 5]), 'other_value': tensor([2, 3])}\<close>) and for section 1.1
  (\<^verbatim>\<open>tensor([3, 5])\<close>), with 2-element arrays in place of the 3x2x2 images.
\<close>

lemma notebook_section_1_2:
  "default_collate
     (PList [PTuple [PTensor [2] [1, 2], PDict [(KStr ''label'', PInt 1), (KStr ''other_value'', PInt 2)]],
             PTuple [PTensor [2] [3, 4], PDict [(KStr ''label'', PInt 5), (KStr ''other_value'', PInt 3)]]])
   = Inr (PTuple [PTensor [2, 2] [1, 2, 3, 4],
                  PDict [(KStr ''label'', PTensor [2] [1, 5]), (KStr ''other_value'', PTensor [2] [2, 3])]])"
  by (simp add: default_collate_def column_def fields_def torch_stack_def)

lemma notebook_section_1_1:
  "default_collate (PList [PTuple [PTensor [2] [1, 2], PInt 3], PTuple [PTensor [2] [3, 4], PInt 5]])
   = Inr (PTuple [PTensor [2, 2] [1, 2, 3, 4], PTensor [2] [3, 5]])"
  by (simp add: default_collate_def column_def torch_stack_def)

text \<open>
  C6. For every non-empty batch of samples, each an input paired with a mapping, where for
  every key of the first mapping the values of all mappings at that key are arrays of one
  shape, the default resolver collates the annotations into ONE mapping with one entry per
  key, whose value is the stack across the samples of the values at that key: a mapping,
  not a list of per-sample mappings. The resolver returns it beside the collated inputs;
  with inputs that are arrays of one shape, as the data model has them, these are the
  stacked inputs.
\<close>

theorem default_collate_merges_mappings:
  assumes "samples \<noteq> []" and "list_all is_tuple2 samples"
    and "list_all (\<lambda>s. isinstance_dict (annotation_of s)) samples"
    and "ks = map fst (dict_items (annotation_of (hd samples)))"
    and "list_all (\<lambda>k. uniform_tensors (map (\<lambda>s. dict_get k (annotation_of s)) samples)) ks"
    and "merged = map (\<lambda>k. (k, stacked (map (\<lambda>s. dict_get k (annotation_of s)) samples))) ks"
  shows "collate (map annotation_of samples) = Inr (PDict merged)
    \<and> default_collate (PList samples) =
        (case collate (map input_of samples) of
           Inl e \<Rightarrow> Inl e
         | Inr imgs \<Rightarrow> Inr (PTuple [imgs, PDict merged]))
    \<and> (uniform_tensors (map input_of samples) \<longrightarrow>
         default_collate (PList samples) =
           Inr (PTuple [stacked (map input_of samples), PDict merged]))
    \<and> isinstance_dict (PDict merged) \<and> \<not> isinstance_list (PDict merged)
    \<and> map fst merged = ks"
proof -
  let ?ds = "map annotation_of samples"
  from assms(1) obtain s rest where ss: "samples = s # rest" by (cases samples) auto
  with assms(2) have s2: "is_tuple2 s" and rest2: "list_all is_tuple2 rest" by simp_all
  from s2 obtain x a where s: "s = PTuple [x, a]" by (cases s rule: is_tuple2.cases) simp_all
  have lens: "list_all (\<lambda>s. map_option length (seq_items s) = Some (Suc (Suc 0))) rest"
    using rest2 by (rule tuple2_lengths)
  have col0: "column 0 samples = Inr (map input_of samples)"
    and col1: "column (Suc 0) samples = Inr ?ds"
    using column_tuple2 [OF assms(2)] by simp_all
  have "collate ?ds = Inr (PDict (map (\<lambda>k. (k, stacked (map (dict_get k) ?ds)))
      (map fst (dict_items (hd ?ds)))))"
  proof (rule collate_dicts)
    show "?ds \<noteq> []" using assms(1) by simp
    show "list_all isinstance_dict ?ds" using assms(3) by (simp add: list_all_iff)
    show "list_all (\<lambda>k. uniform_tensors (map (dict_get k) ?ds)) (map fst (dict_items (hd ?ds)))"
      using assms(1,4,5) by (simp add: hd_map comp_def)
  qed
  then have c1: "collate ?ds = Inr (PDict merged)"
    using assms(1,4,6) by (simp add: hd_map comp_def)
  have "collate (PTuple [x, a] # rest) =
      (case collate (map input_of samples) of
         Inl e \<Rightarrow> Inl e
       | Inr imgs \<Rightarrow> Inr (PTuple [imgs, PDict merged]))"
    using lens col0 col1 c1 ss s
    by (simp add: upt_rec [of 0] upt_rec [of "Suc 0"] split: sum.splits)
  with ss s have whole: "default_collate (PList samples) =
      (case collate (map input_of samples) of
         Inl e \<Rightarrow> Inl e
       | Inr imgs \<Rightarrow> Inr (PTuple [imgs, PDict merged]))"
    by (simp add: default_collate_def)
  have fixed: "default_collate (PList samples) =
      Inr (PTuple [stacked (map input_of samples), PDict merged])"
    if "uniform_tensors (map input_of samples)"
    using whole collate_uniform [OF that] by simp
  have keys: "map fst merged = ks"
    using assms(6) by (simp add: comp_def)
  from c1 whole fixed keys show ?thesis by simp
qed

theorem default_collate_merges_mappings_witness:
  "default_collate
     (PList [PTuple [PTensor [2] [1, 2],
                     PDict [(KStr ''boxes'', PTensor [1, 2] [1, 2]), (KStr ''labels'', PTensor [1] [7])]],
             PTuple [PTensor [2] [3, 4],
                     PDict [(KStr ''boxes'', PTensor [1, 2] [3, 4]), (KStr ''labels'', PTensor [1] [9])]]])
   = Inr (PTuple [PTensor [2, 2] [1, 2, 3, 4],
                  PDict [(KStr ''boxes'', PTensor [2, 1, 2] [1, 2, 3, 4]),
                         (KStr ''labels'', PTensor [2, 1] [7, 9])]])"
proof -
  let ?samples = "[PTuple [PTensor [2] [1, 2],
                     PDict [(KStr ''boxes'', PTensor [1, 2] [1, 2]), (KStr ''labels'', PTensor [1] [7])]],
             PTuple [PTensor [2] [3, 4],
                     PDict [(KStr ''boxes'', PTensor [1, 2] [3, 4]), (KStr ''labels'', PTensor [1] [9])]]]"
  let ?ks = "[KStr ''boxes'', KStr ''labels'']"
  let ?merged = "[(KStr ''boxes'', PTensor [2, 1, 2] [1, 2, 3, 4]),
                  (KStr ''labels'', PTensor [2, 1] [7, 9])]"
  have "collate (map annotation_of ?samples) = Inr (PDict ?merged)
    \<and> default_collate (PList ?samples) =
        (case collate (map input_of ?samples) of
           Inl e \<Rightarrow> Inl e
         | Inr imgs \<Rightarrow> Inr (PTuple [imgs, PDict ?merged]))
    \<and> (uniform_tensors (map input_of ?samples) \<longrightarrow>
         default_collate (PList ?samples) =
           Inr (PTuple [stacked (map input_of ?samples), PDict ?merged]))
    \<and> isinstance_dict (PDict ?merged) \<and> \<not> isinstance_list (PDict ?merged)
    \<and> map fst ?merged = ?ks"
    by (rule default_collate_merges_mappings)
      (simp_all add: uniform_tensors_def stacked_def dict_get_def)
  then have "uniform_tensors (map input_of ?samples) \<longrightarrow>
      default_collate (PList ?samples) = Inr (PTuple [stacked (map input_of ?samples), PDict ?merged])"
    by blast
  moreover have "uniform_tensors (map input_of ?samples)"
    by (simp add: uniform_tensors_def)
  moreover have "stacked (map input_of ?samples) = PTensor [2, 2] [1, 2, 3, 4]"
    by (simp add: stacked_def)
  ultimately show ?thesis by simp
qed

subsection \<open>C7: a batch of one sample\<close>

text \<open>
  As stated, C7 fails on a matched batch whose second sample carries the list \<^verbatim>\<open>[1, 2]\<close>
  instead of a mapping. The batch is collated by the custom branch, with that list as its
  second target; the singleton batch of the second sample fails the test and goes to the
  default resolver, which returns the stacked input and a list of two arrays, not two
  one-element lists.
\<close>

theorem singleton_counterexample:
  "list_all is_tuple2
     [PTuple [PTensor [2] [1, 2], PDict []], PTuple [PTensor [2] [3, 4], PList [PInt 1, PInt 2]]]
   \<and> isinstance_dict (annotation_of (hd [PTuple [PTensor [2] [1, 2], PDict []],
                                           PTuple [PTensor [2] [3, 4], PList [PInt 1, PInt 2]]]))
   \<and> custom_detection_collate default_collate
        (PList [PTuple [PTensor [2] [1, 2], PDict []],
                PTuple [PTensor [2] [3, 4], PList [PInt 1, PInt 2]]])
      = Inr (PTuple [PList [PTensor [2] [1, 2], PTensor [2] [3, 4]],
                     PList [PDict [], PList [PInt 1, PInt 2]]])
   \<and> custom_detection_collate default_collate
        (PList [[PTuple [PTensor [2] [1, 2], PDict []],
                 PTuple [PTensor [2] [3, 4], PList [PInt 1, PInt 2]]] ! 1])
      = Inr (PTuple [PTensor [1, 2] [3, 4], PList [PTensor [1] [1], PTensor [1] [2]]])"
  by (simp add: dispatch_def custom_detection_collate_def detection_branch_def imgs_of_def
      targets_of_def unpack2_def default_collate_def column_def torch_stack_def
      upt_rec [of 0] upt_rec [of "Suc 0"])

text \<open>
  C7, as amended. For every matched batch \<open>B\<close> (a non-empty list of 2-tuples whose first
  sample's second element is a mapping) and every index \<open>i\<close> within \<open>B\<close> at which the
  sample's second element is a mapping too, \<^verbatim>\<open>custom_detection_collate\<close> returns on \<open>B\<close> the
  lists of all inputs and of all annotations, and on the singleton batch of \<open>B[i]\<close> the
  one-element lists holding the \<open>i\<close>-th element of each. The samples at the other indices
  may carry anything as their second element.
\<close>

theorem singleton_consistent:
  assumes "list_all is_tuple2 samples"
    and "isinstance_dict (annotation_of (hd samples))"
    and "i < length samples"
    and "isinstance_dict (annotation_of (samples ! i))"
  shows "custom_detection_collate dc (PList samples) =
           Inr (PTuple [PList (map input_of samples), PList (map annotation_of samples)])
         \<and> custom_detection_collate dc (PList [samples ! i]) =
           Inr (PTuple [PList [map input_of samples ! i], PList [map annotation_of samples ! i]])"
proof -
  from assms(3) have ne: "samples \<noteq> []" by auto
  from ne assms(1,2) have whole: "custom_detection_collate dc (PList samples) =
      Inr (PTuple [PList (map input_of samples), PList (map annotation_of samples)])"
    by (rule detection_on_samples)
  from assms(1,3) have one: "is_tuple2 (samples ! i)"
    by (simp add: list_all_length)
  with assms(4) have "custom_detection_collate dc (PList [samples ! i]) =
      Inr (PTuple [PList (map input_of [samples ! i]), PList (map annotation_of [samples ! i])])"
    by (intro detection_on_samples) simp_all
  with assms(3) whole show ?thesis by simp
qed

theorem singleton_consistent_witness:
  "custom_detection_collate default_collate
     (PList [PTuple [PTensor [2] [1, 2], PDict [(KStr ''labels'', PTensor [1] [7])]],
             PTuple [PTensor [2] [3, 4], PList [PInt 1, PInt 2]],
             PTuple [PTensor [2] [5, 6], PDict [(KStr ''labels'', PTensor [2] [8, 9])]]])
   = Inr (PTuple [PList [PTensor [2] [1, 2], PTensor [2] [3, 4], PTensor [2] [5, 6]],
                  PList [PDict [(KStr ''labels'', PTensor [1] [7])],
                         PList [PInt 1, PInt 2],
                         PDict [(KStr ''labels'', PTensor [2] [8, 9])]]])
   \<and> custom_detection_collate default_collate
     (PList [PTuple [PTensor [2] [5, 6], PDict [(KStr ''labels'', PTensor [2] [8, 9])]]])
   = Inr (PTuple [PList [PTensor [2] [5, 6]], PList [PDict [(KStr ''labels'', PTensor [2] [8, 9])]]])"
  using singleton_consistent
    [of "[PTuple [PTensor [2] [1, 2], PDict [(KStr ''labels'', PTensor [1] [7])]],
          PTuple [PTensor [2] [3, 4], PList [PInt 1, PInt 2]],
          PTuple [PTensor [2] [5, 6], PDict [(KStr ''labels'', PTensor [2] [8, 9])]]]"
        2 default_collate]
  by simp

subsection \<open>C8: the empty batch\<close>

text \<open>
  C8. Applied to the empty list, both functions raise \<^verbatim>\<open>IndexError\<close> from \<^verbatim>\<open>batch[0]\<close>
  in the test: neither the default resolver (whatever it is) nor an empty result is reached.
\<close>

theorem empty_batch_raises:
  "dispatch (PList []) = Inl IndexError
   \<and> custom_collate dc (PList []) = Inl IndexError
   \<and> custom_detection_collate dc (PList []) = Inl IndexError"
  by (simp add: custom_collate_def custom_detection_collate_def dispatch_empty)

theorem empty_batch_raises_witness:
  "custom_collate default_collate (PList []) = Inl IndexError
   \<and> custom_detection_collate (\<lambda>b. Inr (PTuple [PList [], PList []])) (PList []) = Inl IndexError"
  using empty_batch_raises [of default_collate]
    empty_batch_raises [of "\<lambda>b. Inr (PTuple [PList [], PList []])"]
  by simp

subsection \<open>C9: the test reads the first sample only\<close>

text \<open>
  C9. The outcome of the test, and with it the branch that runs, is a function of three
  attributes of the batch: whether it is a list, the length of its first sample, and
  whether the first sample's element at index 1 is a \<^verbatim>\<open>dict\<close>. Two batches that agree on
  the three have the same outcome; the samples after the first never change it; and a
  batch whose first sample is a 2-tuple with a mapping goes to the custom branch of both
  functions whatever its later samples are.
\<close>

theorem dispatch_depends_on_first_sample:
  "(isinstance_list b1 = isinstance_list b2 \<and> len_of_first b1 = len_of_first b2
      \<and> second_of_first_is_dict b1 = second_of_first_is_dict b2
      \<longrightarrow> dispatch b1 = dispatch b2
          \<and> custom_collate dc b1 = (if dispatch b1 = Inr False then dc b1
                else if dispatch b1 = Inr True then collate_branch b1 else custom_collate dc b2)
          \<and> custom_detection_collate dc b1 = (if dispatch b1 = Inr False then dc b1
                else if dispatch b1 = Inr True then detection_branch b1
                else custom_detection_collate dc b2))
   \<and> dispatch (PList (first # rest)) = dispatch (PList (first # rest'))
   \<and> (is_tuple2 first \<and> isinstance_dict (annotation_of first)
      \<longrightarrow> dispatch (PList (first # rest)) = Inr True
          \<and> custom_collate dc (PList (first # rest)) = collate_branch (PList (first # rest))
          \<and> custom_detection_collate dc (PList (first # rest)) = detection_branch (PList (first # rest)))"
proof -
  have same: "dispatch b1 = dispatch b2"
    if "isinstance_list b1 = isinstance_list b2" and "len_of_first b1 = len_of_first b2"
      and "second_of_first_is_dict b1 = second_of_first_is_dict b2"
    using that
    by (auto simp add: dispatch_attributes [of b1] dispatch_attributes [of b2] split: sum.splits)
  have branches: "custom_collate dc b1 = (if dispatch b1 = Inr False then dc b1
        else if dispatch b1 = Inr True then collate_branch b1 else custom_collate dc b2)
      \<and> custom_detection_collate dc b1 = (if dispatch b1 = Inr False then dc b1
        else if dispatch b1 = Inr True then detection_branch b1
        else custom_detection_collate dc b2)"
    if "dispatch b1 = dispatch b2"
    using that
    by (cases "dispatch b2") (auto simp add: custom_collate_def custom_detection_collate_def)
  have later: "dispatch (PList (first # rest)) = dispatch (PList (first # rest'))"
    by (simp add: dispatch_Cons)
  have custom: "is_tuple2 first \<and> isinstance_dict (annotation_of first)
      \<longrightarrow> dispatch (PList (first # rest)) = Inr True
          \<and> custom_collate dc (PList (first # rest)) = collate_branch (PList (first # rest))
          \<and> custom_detection_collate dc (PList (first # rest)) = detection_branch (PList (first # rest))"
    by (simp add: dispatch_tuple2 custom_collate_def custom_detection_collate_def)
  from same branches later custom show ?thesis by blast
qed

theorem dispatch_depends_on_first_sample_witness:
  "dispatch (PList [PTuple [PTensor [1] [0], PDict []], PInt 7, PNone])
     = dispatch (PList [PTuple [PTensor [1] [0], PDict []]])
   \<and> dispatch (PList [PTuple [PTensor [1] [0], PDict []], PInt 7, PNone]) = Inr True
   \<and> custom_detection_collate (\<lambda>b. Inr PNone)
       (PList [PTuple [PTensor [1] [0], PDict []], PTuple [PNone, PInt 7]])
     = detection_branch (PList [PTuple [PTensor [1] [0], PDict []], PTuple [PNone, PInt 7]])"
  using dispatch_depends_on_first_sample
    [of "PList [PTuple [PTensor [1] [0], PDict []], PInt 7, PNone]"
        "PList [PTuple [PTensor [1] [0], PDict []]]" "\<lambda>b. Inr PNone"
        "PTuple [PTensor [1] [0], PDict []]" "[PInt 7, PNone]" "[]"]
    dispatch_depends_on_first_sample
    [of PNone PNone "\<lambda>b. Inr PNone"
        "PTuple [PTensor [1] [0], PDict []]" "[PTuple [PNone, PInt 7]]" "[]"]
  by (auto simp add: len_of_first_def second_of_first_is_dict_def)

subsection \<open>The functions on the store\<close>

lemma frame_return: "frame (st_return v)"
  by (simp add: frame_def st_return_def)

lemma frame_raise: "frame (st_raise e)"
  by (simp add: frame_def st_raise_def)

lemma frame_new: "frame (st_new ob)"
  by (simp add: frame_def st_new_def)

lemma frame_new_all: "frame (st_new_all obs)"
  by (simp add: frame_def st_new_all_def)

lemma frame_bind:
  assumes "frame m" and "\<And>v. frame (f v)"
  shows "frame (st_bind m f)"
proof -
  have "prefix h (snd (st_bind m f h))" for h
  proof (cases "m h")
    case (Pair r h')
    from assms(1) Pair have 1: "prefix h h'" by (auto simp: frame_def dest: spec [of _ h])
    show ?thesis
    proof (cases r)
      case (Inl e)
      with Pair 1 show ?thesis by (simp add: st_bind_def)
    next
      case (Inr v)
      from assms(2) [of v] have "prefix h' (snd (f v h'))" by (simp add: frame_def)
      with 1 have "prefix h (snd (f v h'))" by (rule prefix_order.trans)
      with Pair Inr show ?thesis by (simp add: st_bind_def)
    qed
  qed
  then show ?thesis by (simp add: frame_def)
qed

lemma frame_if: "frame m \<Longrightarrow> frame n \<Longrightarrow> frame (if c then m else n)"
  by simp

lemma frame_read: "(\<And>h. frame (g (obj_at h a))) \<Longrightarrow> frame (\<lambda>h. g (obj_at h a) h)"
  by (simp add: frame_def)

lemma frame_getitem_obj: "frame (getitem_obj ob i)"
  by (cases "(ob, i)" rule: getitem_obj.cases)
    (simp_all add: frame_return frame_raise frame_new split: option.splits)

lemma frame_iter_obj: "frame (iter_obj ob)"
  by (cases ob rule: iter_obj.cases) (simp_all add: frame_return frame_raise frame_new_all)

lemma frame_getitem: "frame (st_getitem a i)"
  unfolding st_getitem_def by (rule frame_read) (rule frame_getitem_obj)

lemma frame_iter: "frame (st_iter a)"
  unfolding st_iter_def by (rule frame_read) (rule frame_iter_obj)

lemma frame_len: "frame (st_len a)"
  by (simp add: frame_def st_len_def)

lemma frame_isinstance_list: "frame (st_isinstance_list a)"
  by (simp add: frame_def st_isinstance_list_def st_return_def)

lemma frame_isinstance_dict: "frame (st_isinstance_dict a)"
  by (simp add: frame_def st_isinstance_dict_def st_return_def)

lemma frame_unpack2: "frame (st_unpack2 s)"
  unfolding st_unpack2_def
  by (intro frame_bind frame_iter) (simp add: frame_return frame_raise split: list.splits)

lemma frame_comprehension: "frame (st_comprehension f ss)"
  by (induction ss) (auto intro!: frame_bind frame_return frame_unpack2)

lemma frame_imgs_of: "frame (st_imgs_of batch)"
  unfolding st_imgs_of_def
  by (intro frame_bind frame_iter frame_comprehension frame_new)

lemma frame_targets_of: "frame (st_targets_of batch)"
  unfolding st_targets_of_def
  by (intro frame_bind frame_iter frame_comprehension frame_new)

lemma frame_stack_objs: "frame (stack_objs ts)"
  by (cases ts) (simp_all add: stack_objs_def frame_raise frame_new)

lemma frame_torch_stack: "frame (st_torch_stack a)"
proof -
  have "prefix h (snd (st_torch_stack a h))" for h
    using frame_stack_objs [of "map (obj_at h) ts" for ts] frame_raise [of TypeError]
    by (cases "obj_at h a") (auto simp add: st_torch_stack_def frame_def)
  then show ?thesis by (simp add: frame_def)
qed

lemma frame_dispatch: "frame (st_dispatch batch)"
  unfolding st_dispatch_def
  by (intro frame_bind frame_if frame_isinstance_list frame_return frame_getitem frame_len
      frame_isinstance_dict)

lemma frame_collate_branch: "frame (st_collate_branch batch)"
  unfolding st_collate_branch_def
  by (intro frame_bind frame_imgs_of frame_torch_stack frame_targets_of frame_new)

lemma frame_detection_branch: "frame (st_detection_branch batch)"
  unfolding st_detection_branch_def
  by (intro frame_bind frame_imgs_of frame_targets_of frame_new)

lemma frame_custom_collate: "(\<And>b. frame (dc b)) \<Longrightarrow> frame (st_custom_collate dc batch)"
  unfolding st_custom_collate_def
  by (intro frame_bind frame_if frame_dispatch frame_collate_branch)

lemma frame_custom_detection_collate:
  "(\<And>b. frame (dc b)) \<Longrightarrow> frame (st_custom_detection_collate dc batch)"
  unfolding st_custom_detection_collate_def
  by (intro frame_bind frame_if frame_dispatch frame_detection_branch)


lemma tuple2_atD:
  assumes "tuple2_at h s"
  shows "obj_at h s = OTuple [input_ref h s, target_ref h s] \<and> s < length h"
proof -
  from assms obtain x t where "obj_at h s = OTuple [x, t]"
    by (auto simp: tuple2_at_def split: obj.splits list.splits)
  moreover from this have "s < length h" by (auto simp: obj_at_def split: if_splits)
  ultimately show ?thesis by (simp add: input_ref_def target_ref_def)
qed

lemma obj_at_append: "a < length h \<Longrightarrow> obj_at (h @ e) a = obj_at h a"
  by (simp add: obj_at_def nth_append)

lemma prefix_obj_at: "prefix h h' \<Longrightarrow> a < length h \<Longrightarrow> obj_at h' a = obj_at h a"
  by (auto simp: prefix_def obj_at_append)

lemma obj_at_new: "obj_at (h @ ob # e) (length h) = ob"
  by (simp add: obj_at_def)

lemma tuple2_at_append:
  assumes "tuple2_at h s"
  shows "tuple2_at (h @ e) s" and "input_ref (h @ e) s = input_ref h s"
    and "target_ref (h @ e) s = target_ref h s"
proof -
  from tuple2_atD [OF assms] have "s < length h" by simp
  then have "obj_at (h @ e) s = obj_at h s" by (rule obj_at_append)
  with assms show "tuple2_at (h @ e) s" and "input_ref (h @ e) s = input_ref h s"
    and "target_ref (h @ e) s = target_ref h s"
    by (simp_all add: tuple2_at_def input_ref_def target_ref_def)
qed

lemma st_unpack2_tuple:
  "tuple2_at h s \<Longrightarrow> st_unpack2 s h = (Inr (input_ref h s, target_ref h s), h)"
  by (drule tuple2_atD) (simp add: st_unpack2_def st_bind_def st_iter_def st_return_def)

lemma st_comprehension_tuples:
  "list_all (tuple2_at h) ss \<Longrightarrow>
   st_comprehension f ss h = (Inr (map (\<lambda>s. f (input_ref h s, target_ref h s)) ss), h)"
  by (induction ss) (simp_all add: st_unpack2_tuple st_bind_def st_return_def)

lemma list_at_append: "obj_at h b = OList ss \<Longrightarrow> obj_at (h @ e) b = OList ss"
  by (auto simp: obj_at_def nth_append split: if_splits)

lemma st_comprehension_append:
  assumes "list_all (tuple2_at h) ss"
  shows "st_comprehension f ss (h @ e)
    = (Inr (map (\<lambda>s. f (input_ref h s, target_ref h s)) ss), h @ e)"
proof -
  from assms have all: "list_all (tuple2_at (h @ e)) ss"
    by (simp add: list_all_iff tuple2_at_append(1))
  have "map (\<lambda>s. f (input_ref (h @ e) s, target_ref (h @ e) s)) ss
      = map (\<lambda>s. f (input_ref h s, target_ref h s)) ss"
    using assms by (simp add: list_all_iff tuple2_at_append(2,3))
  with st_comprehension_tuples [OF all, of f] show ?thesis by simp
qed

lemma st_imgs_of_tuples:
  assumes "obj_at h b = OList ss" and "list_all (tuple2_at h) ss"
  shows "st_imgs_of b (h @ e) =
    (Inr (length h + length e), h @ e @ [OList (map (input_ref h) ss)])"
  using list_at_append [OF assms(1), of e] st_comprehension_append [OF assms(2), of fst e]
  by (simp add: st_imgs_of_def st_bind_def st_iter_def st_return_def st_new_def)

lemma st_targets_of_tuples:
  assumes "obj_at h b = OList ss" and "list_all (tuple2_at h) ss"
  shows "st_targets_of b (h @ e) =
    (Inr (length h + length e), h @ e @ [OList (map (target_ref h) ss)])"
  using list_at_append [OF assms(1), of e] st_comprehension_append [OF assms(2), of snd e]
  by (simp add: st_targets_of_def st_bind_def st_iter_def st_return_def st_new_def)

lemma st_dispatch_matched:
  assumes "matched_at h b ss"
  shows "st_dispatch b h = (Inr True, h)"
proof -
  from assms obtain s rest where ss: "ss = s # rest" and b: "obj_at h b = OList (s # rest)"
    and s: "tuple2_at h s" and d: "is_dict_obj (obj_at h (target_ref h s))"
    by (cases ss) (auto simp: matched_at_def)
  from tuple2_atD [OF s] have "obj_at h s = OTuple [input_ref h s, target_ref h s]" by simp
  with b d show ?thesis
    by (simp add: st_dispatch_def st_bind_def st_isinstance_list_def st_return_def
        st_getitem_def st_len_def st_isinstance_dict_def)
qed

lemma st_detection_branch_tuples:
  assumes "obj_at h b = OList ss" and "list_all (tuple2_at h) ss"
  shows "st_detection_branch b h =
    (Inr (length h + 2),
     h @ [OList (map (input_ref h) ss), OList (map (target_ref h) ss),
          OTuple [length h, length h + 1]])"
  using st_imgs_of_tuples [OF assms, of "[]"]
    st_targets_of_tuples [OF assms, of "[OList (map (input_ref h) ss)]"]
  by (simp add: st_detection_branch_def st_bind_def st_new_def)

lemma stack_objs_uniform:
  "uniform_objs ts \<Longrightarrow> stack_objs ts h = (Inr (length h), h @ [stacked_obj ts])"
  by (cases ts) (simp_all add: uniform_objs_def stack_objs_def stacked_obj_def st_new_def)

lemma tensor_obj_in_store: "is_tensor_obj (obj_at h a) \<Longrightarrow> a < length h"
  by (auto simp: obj_at_def split: if_splits)

lemma st_collate_branch_tuples:
  assumes "obj_at h b = OList ss" and "list_all (tuple2_at h) ss"
    and "uniform_objs (map (\<lambda>s. obj_at h (input_ref h s)) ss)"
  shows "st_collate_branch b h =
    (Inr (length h + 3),
     h @ [OList (map (input_ref h) ss),
          stacked_obj (map (\<lambda>s. obj_at h (input_ref h s)) ss),
          OList (map (target_ref h) ss),
          OTuple [length h + 1, length h + 2]])"
proof -
  let ?l = "OList (map (input_ref h) ss)"
  let ?ts = "map (\<lambda>s. obj_at h (input_ref h s)) ss"
  let ?t = "stacked_obj ?ts"
  have 1: "st_imgs_of b h = (Inr (length h), h @ [?l])"
    using st_imgs_of_tuples [OF assms(1,2), of "[]"] by simp
  from assms(3) have "list_all (\<lambda>s. is_tensor_obj (obj_at h (input_ref h s))) ss"
    by (simp add: uniform_objs_def list_all_iff)
  then have "list_all (\<lambda>s. input_ref h s < length h) ss"
    by (simp add: list_all_iff tensor_obj_in_store)
  then have same: "map (obj_at (h @ [?l])) (map (input_ref h) ss) = ?ts"
    by (simp add: list_all_iff obj_at_append)
  have "obj_at (h @ [?l]) (length h) = ?l" by (rule obj_at_new)
  then have "st_torch_stack (length h) (h @ [?l])
      = stack_objs (map (obj_at (h @ [?l])) (map (input_ref h) ss)) (h @ [?l])"
    by (simp add: st_torch_stack_def del: map_map)
  also have "\<dots> = stack_objs ?ts (h @ [?l])" by (simp only: same)
  also have "\<dots> = (Inr (length h + 1), h @ [?l, ?t])"
    using stack_objs_uniform [OF assms(3), of "h @ [?l]"] by simp
  finally have 2: "st_torch_stack (length h) (h @ [?l]) = (Inr (length h + 1), h @ [?l, ?t])" .
  have 3: "st_targets_of b (h @ [?l, ?t]) =
      (Inr (length h + 2), h @ [?l, ?t, OList (map (target_ref h) ss)])"
    using st_targets_of_tuples [OF assms(1,2), of "[?l, ?t]"] by simp
  from 1 2 3 show ?thesis
    by (simp add: st_collate_branch_def st_bind_def st_new_def)
qed

subsection \<open>The two translations agree\<close>

text \<open>
  The test on the store has the outcome of the test on the value the batch stands for, for
  every store and address; and on a matched batch in a closed store, the object each
  function returns stands for the value the function returns on the value of the batch.
\<close>

lemma reify_obj:
  "reify (Suc n) h a =
     (case obj_at h a of
        ONone \<Rightarrow> PNone
      | OInt i \<Rightarrow> PInt i
      | OStr s \<Rightarrow> PStr s
      | OTensor sh d \<Rightarrow> PTensor sh d
      | OTuple xs \<Rightarrow> PTuple (map (reify n h) xs)
      | OList xs \<Rightarrow> PList (map (reify n h) xs)
      | ODict kvs \<Rightarrow> PDict (map (\<lambda>kv. (fst kv, reify n h (snd kv))) kvs))"
  by (simp add: reify.simps(2))

lemma len_reify: "py_len (reify (Suc n) h a) = len_obj (obj_at h a)"
  by (cases "obj_at h a" rule: len_obj.cases) (simp_all add: reify_obj)

lemma is_list_reify: "isinstance_list (reify (Suc n) h a) = is_list_obj (obj_at h a)"
  by (cases "obj_at h a") (simp_all add: reify_obj)

lemma is_dict_reify: "isinstance_dict (reify (Suc n) h a) = is_dict_obj (obj_at h a)"
  by (cases "obj_at h a") (simp_all add: reify_obj)

lemma map_of_reify:
  "map_of (map (\<lambda>kv. (fst kv, f (snd kv))) kvs) k = map_option f (map_of kvs k)"
  by (induction kvs) auto

lemma getitem_reify:
  "(case st_getitem a i h of
      (Inl e, h') \<Rightarrow> py_getitem (reify (Suc (Suc n)) h a) i = Inl e
    | (Inr r, h') \<Rightarrow> py_getitem (reify (Suc (Suc n)) h a) i = Inr (reify (Suc n) h' r))"
proof (cases "(obj_at h a, i)" rule: getitem_obj.cases)
  case (8 kvs j)
  then show ?thesis
    by (cases "map_of kvs (KInt (int i))")
      (simp_all add: st_getitem_def st_raise_def st_return_def map_of_reify
        reify_obj [of "Suc n" h a])
qed (simp_all add: st_getitem_def st_raise_def st_return_def st_new_def
    tensor_slice_def slice_obj_def reify_obj [of "Suc n" h a] reify_obj [of n _ "length h"]
    obj_at_new [of h _ "[]"])

lemma dispatch_refines: "fst (st_dispatch b h) = dispatch (reify (Suc (Suc (Suc n))) h b)"
proof (cases "is_list_obj (obj_at h b)")
  case False
  then show ?thesis
    by (simp add: st_dispatch_def dispatch_def st_bind_def st_isinstance_list_def st_return_def
        is_list_reify)
next
  case True
  then obtain xs where b: "obj_at h b = OList xs" by (cases "obj_at h b") simp_all
  show ?thesis
  proof (cases xs)
    case Nil
    with b show ?thesis
      by (simp add: st_dispatch_def dispatch_def st_bind_def st_isinstance_list_def st_return_def
          st_getitem_def st_raise_def reify_obj [of "Suc (Suc n)"])
  next
    case (Cons first rest)
    let ?v = "reify (Suc (Suc n)) h first"
    from b Cons have v: "reify (Suc (Suc (Suc n))) h b = PList (?v # map (reify (Suc (Suc n)) h) rest)"
      by (simp add: reify_obj [of "Suc (Suc n)"])
    from b Cons have g0: "st_getitem b 0 h = (Inr first, h)"
      by (simp add: st_getitem_def st_return_def)
    have len: "py_len ?v = len_obj (obj_at h first)" by (rule len_reify)
    show ?thesis
    proof (cases "len_obj (obj_at h first)")
      case (Inl e)
      with b g0 len v show ?thesis
        by (simp add: st_dispatch_def dispatch_def st_bind_def st_isinstance_list_def st_return_def
            st_len_def)
    next
      case (Inr m)
      show ?thesis
      proof (cases "m = 2")
        case False
        with Inr b g0 len v show ?thesis
          by (simp add: st_dispatch_def dispatch_def st_bind_def st_isinstance_list_def
              st_return_def st_len_def)
      next
        case True
        have step: "fst (st_dispatch b h) =
            fst (st_bind (st_getitem first 1) st_isinstance_dict h)"
          using True Inr b g0
          by (simp add: st_dispatch_def st_bind_def st_isinstance_list_def st_return_def st_len_def)
        have vdisp: "dispatch (reify (Suc (Suc (Suc n))) h b) =
            (case py_getitem ?v 1 of Inl e \<Rightarrow> Inl e | Inr second \<Rightarrow> Inr (isinstance_dict second))"
          using True Inr len v by (simp add: dispatch_def)
        obtain r h' where g1: "st_getitem first 1 h = (r, h')" by (cases "st_getitem first 1 h")
        show ?thesis
        proof (cases r)
          case (Inl e)
          with g1 getitem_reify [where a = first and i = 1 and h = h and n = n] have "py_getitem ?v 1 = Inl e" by simp
          with Inl g1 step vdisp show ?thesis by (simp add: st_bind_def)
        next
          case (Inr second)
          with g1 getitem_reify [where a = first and i = 1 and h = h and n = n]
          have "py_getitem ?v 1 = Inr (reify (Suc n) h' second)" by simp
          with Inr g1 step vdisp show ?thesis
            by (simp add: st_bind_def st_isinstance_dict_def st_return_def is_dict_reify
               )
        qed
      qed
    qed
  qed
qed

lemma closed_refs:
  assumes "closed h" and "a < length h" and "r \<in> set (refs_of (obj_at h a))"
  shows "r < length h"
proof -
  from assms(2) have "obj_at h a \<in> set h" by (simp add: obj_at_def)
  with assms(1,3) show ?thesis by (auto simp: closed_def list_all_iff)
qed

lemma reify_append:
  "closed h \<Longrightarrow> a < length h \<Longrightarrow> reify n (h @ e) a = reify n h a"
proof (induction n arbitrary: a)
  case 0
  show ?case by simp
next
  case (Suc n)
  from Suc.prems(2) have same: "obj_at (h @ e) a = obj_at h a" by (rule obj_at_append)
  have kids: "reify n (h @ e) r = reify n h r" if "r \<in> set (refs_of (obj_at h a))" for r
    using Suc.IH [OF Suc.prems(1)] closed_refs [OF Suc.prems that] by simp
  show ?case
  proof (cases "obj_at h a")
    case (OTuple xs)
    with same kids show ?thesis by (simp add: reify_obj [of n])
  next
    case (OList xs)
    with same kids show ?thesis by (simp add: reify_obj [of n])
  next
    case (ODict kvs)
    with same kids show ?thesis by (simp add: reify_obj [of n])
  qed (simp_all add: same reify_obj [of n])
qed


lemma reify_sample:
  assumes "tuple2_at h s"
  shows "reify (Suc (Suc n)) h s =
    PTuple [reify (Suc n) h (input_ref h s), reify (Suc n) h (target_ref h s)]"
  using tuple2_atD [OF assms] by (simp add: reify_obj [of "Suc n"])

lemma sample_refs_in_store:
  assumes "closed h" and "tuple2_at h s"
  shows "input_ref h s < length h \<and> target_ref h s < length h"
proof -
  from tuple2_atD [OF assms(2)]
  have ob: "obj_at h s = OTuple [input_ref h s, target_ref h s]" and s: "s < length h"
    by simp_all
  from ob have "input_ref h s \<in> set (refs_of (obj_at h s))"
    and "target_ref h s \<in> set (refs_of (obj_at h s))"
    by simp_all
  with assms(1) s show ?thesis by (simp add: closed_refs)
qed

lemma detection_refines:
  assumes "closed h" and "matched_at h b ss"
  shows "fst (st_custom_detection_collate dcs b h) = Inr (length h + 2)
    \<and> custom_detection_collate dcv (reify (Suc (Suc (Suc n))) h b) =
        Inr (reify (Suc (Suc (Suc n))) (snd (st_custom_detection_collate dcs b h)) (length h + 2))"
proof -
  let ?imgs = "map (input_ref h) ss" and ?tgts = "map (target_ref h) ss"
  let ?new = "[OList ?imgs, OList ?tgts, OTuple [length h, Suc (length h)]]"
  from assms(2) have b: "obj_at h b = OList ss" and ne: "ss \<noteq> []"
    and tuples: "list_all (tuple2_at h) ss"
    and dict: "is_dict_obj (obj_at h (target_ref h (hd ss)))"
    by (simp_all add: matched_at_def)
  \<comment> \<open>the store side\<close>
  from assms(2) have "st_dispatch b h = (Inr True, h)" by (rule st_dispatch_matched)
  then have "st_custom_detection_collate dcs b h = st_detection_branch b h"
    by (simp add: st_custom_detection_collate_def st_bind_def)
  with b tuples have run: "st_custom_detection_collate dcs b h = (Inr (length h + 2), h @ ?new)"
    by (simp add: st_detection_branch_tuples)
  have old: "reify (Suc n) (h @ ?new) r = reify (Suc n) h r" if "r < length h" for r
    using assms(1) that by (rule reify_append)
  have refs: "input_ref h s < length h \<and> target_ref h s < length h" if "s \<in> set ss" for s
    using assms(1) tuples that by (simp add: list_all_iff sample_refs_in_store)
  have "reify (Suc (Suc (Suc n))) (h @ ?new) (length h + 2) =
      PTuple [PList (map (reify (Suc n) (h @ ?new)) ?imgs),
              PList (map (reify (Suc n) (h @ ?new)) ?tgts)]"
    by (simp add: reify_obj [of "Suc (Suc n)"] reify_obj [of "Suc n" _ "length h"]
        reify_obj [of "Suc n" _ "Suc (length h)"] obj_at_def nth_append)
  also have "\<dots> = PTuple [PList (map (\<lambda>s. reify (Suc n) h (input_ref h s)) ss),
                            PList (map (\<lambda>s. reify (Suc n) h (target_ref h s)) ss)]"
    using refs by (simp add: old cong: map_cong)
  finally have store: "reify (Suc (Suc (Suc n))) (h @ ?new) (length h + 2) =
      PTuple [PList (map (\<lambda>s. reify (Suc n) h (input_ref h s)) ss),
              PList (map (\<lambda>s. reify (Suc n) h (target_ref h s)) ss)]" .
  \<comment> \<open>the value side\<close>
  let ?vs = "map (reify (Suc (Suc n)) h) ss"
  from b have v: "reify (Suc (Suc (Suc n))) h b = PList ?vs"
    by (simp add: reify_obj [of "Suc (Suc n)"])
  have each: "reify (Suc (Suc n)) h s =
      PTuple [reify (Suc n) h (input_ref h s), reify (Suc n) h (target_ref h s)]"
    if "s \<in> set ss" for s
    using tuples that by (simp add: list_all_iff reify_sample)
  then have pairs: "list_all is_tuple2 ?vs" by (simp add: list_all_iff)
  from each have ins: "map input_of ?vs = map (\<lambda>s. reify (Suc n) h (input_ref h s)) ss"
    and ans: "map annotation_of ?vs = map (\<lambda>s. reify (Suc n) h (target_ref h s)) ss"
    by simp_all
  from ne each [of "hd ss"] have "annotation_of (hd ?vs) = reify (Suc n) h (target_ref h (hd ss))"
    by (simp add: hd_map)
  with dict have "isinstance_dict (annotation_of (hd ?vs))" by (simp add: is_dict_reify)
  with ne pairs have "custom_detection_collate dcv (PList ?vs) =
      Inr (PTuple [PList (map input_of ?vs), PList (map annotation_of ?vs)])"
    by (intro detection_on_samples) simp_all
  with v ins ans store run show ?thesis by simp
qed


lemma reify_tensor:
  "is_tensor_obj (obj_at h a) \<Longrightarrow>
   reify (Suc n) h a = PTensor (shape_obj (obj_at h a)) (data_obj (obj_at h a))"
  by (cases "obj_at h a") (simp_all add: reify_obj)

lemma uniform_objs_vals:
  "uniform_objs os \<Longrightarrow> uniform_tensors (map (\<lambda>ob. PTensor (shape_obj ob) (data_obj ob)) os)"
  by (cases os) (auto simp: uniform_objs_def uniform_tensors_def list_all_iff)

lemma collate_refines:
  assumes "closed h" and "matched_at h b ss"
    and "uniform_objs (map (\<lambda>s. obj_at h (input_ref h s)) ss)"
  shows "fst (st_custom_collate dcs b h) = Inr (length h + 3)
    \<and> custom_collate dcv (reify (Suc (Suc (Suc n))) h b) =
        Inr (reify (Suc (Suc (Suc n))) (snd (st_custom_collate dcs b h)) (length h + 3))"
proof -
  let ?os = "map (\<lambda>s. obj_at h (input_ref h s)) ss"
  let ?imgs = "map (input_ref h) ss" and ?tgts = "map (target_ref h) ss"
  let ?new = "[OList ?imgs, stacked_obj ?os, OList ?tgts,
               OTuple [Suc (length h), Suc (Suc (length h))]]"
  from assms(2) have b: "obj_at h b = OList ss" and ne: "ss \<noteq> []"
    and tuples: "list_all (tuple2_at h) ss"
    and dict: "is_dict_obj (obj_at h (target_ref h (hd ss)))"
    by (simp_all add: matched_at_def)
  from assms(3) have tensors: "is_tensor_obj (obj_at h (input_ref h s))" if "s \<in> set ss" for s
    using that by (simp add: uniform_objs_def list_all_iff)
  \<comment> \<open>the store side\<close>
  from assms(2) have "st_dispatch b h = (Inr True, h)" by (rule st_dispatch_matched)
  then have "st_custom_collate dcs b h = st_collate_branch b h"
    by (simp add: st_custom_collate_def st_bind_def)
  with b tuples assms(3) have run: "st_custom_collate dcs b h = (Inr (length h + 3), h @ ?new)"
    by (simp add: st_collate_branch_tuples)
  have old: "reify (Suc n) (h @ ?new) r = reify (Suc n) h r" if "r < length h" for r
    using assms(1) that by (rule reify_append)
  have refs: "input_ref h s < length h \<and> target_ref h s < length h" if "s \<in> set ss" for s
    using assms(1) tuples that by (simp add: list_all_iff sample_refs_in_store)
  have "reify (Suc (Suc (Suc n))) (h @ ?new) (length h + 3) =
      PTuple [PTensor (length ss # shape_obj (hd ?os)) (concat (map data_obj ?os)),
              PList (map (reify (Suc n) (h @ ?new)) ?tgts)]"
    by (simp add: reify_obj [of "Suc (Suc n)"] reify_obj [of "Suc n" _ "Suc (length h)"]
        reify_obj [of "Suc n" _ "Suc (Suc (length h))"] obj_at_def nth_append stacked_obj_def)
  also have "\<dots> = PTuple [PTensor (length ss # shape_obj (hd ?os)) (concat (map data_obj ?os)),
                            PList (map (\<lambda>s. reify (Suc n) h (target_ref h s)) ss)]"
    using refs by (simp add: old cong: map_cong)
  finally have store: "reify (Suc (Suc (Suc n))) (h @ ?new) (length h + 3) =
      PTuple [PTensor (length ss # shape_obj (hd ?os)) (concat (map data_obj ?os)),
              PList (map (\<lambda>s. reify (Suc n) h (target_ref h s)) ss)]" .
  \<comment> \<open>the value side\<close>
  let ?vs = "map (reify (Suc (Suc n)) h) ss"
  from b have v: "reify (Suc (Suc (Suc n))) h b = PList ?vs"
    by (simp add: reify_obj [of "Suc (Suc n)"])
  have each: "reify (Suc (Suc n)) h s =
      PTuple [PTensor (shape_obj (obj_at h (input_ref h s))) (data_obj (obj_at h (input_ref h s))),
              reify (Suc n) h (target_ref h s)]"
    if "s \<in> set ss" for s
    using tuples that tensors [OF that] by (simp add: list_all_iff reify_sample reify_tensor)
  then have pairs: "list_all is_tuple2 ?vs" by (simp add: list_all_iff)
  from each have ins: "map input_of ?vs =
      map (\<lambda>s. PTensor (shape_obj (obj_at h (input_ref h s))) (data_obj (obj_at h (input_ref h s)))) ss"
    and ans: "map annotation_of ?vs = map (\<lambda>s. reify (Suc n) h (target_ref h s)) ss"
    by simp_all
  from ne each [of "hd ss"] have "annotation_of (hd ?vs) = reify (Suc n) h (target_ref h (hd ss))"
    by (simp add: hd_map)
  with dict have "isinstance_dict (annotation_of (hd ?vs))" by (simp add: is_dict_reify)
  with ne pairs have call: "custom_collate dcv (PList ?vs) =
      (case torch_stack (map input_of ?vs) of
         Inl e \<Rightarrow> Inl e
       | Inr imgs \<Rightarrow> Inr (PTuple [imgs, PList (map annotation_of ?vs)]))"
    by (intro collate_on_samples) simp_all
  from ins have "map input_of ?vs = map (\<lambda>ob. PTensor (shape_obj ob) (data_obj ob)) ?os"
    by (simp only: map_map comp_def)
  with uniform_objs_vals [OF assms(3)] have "uniform_tensors (map input_of ?vs)"
    by (simp only:)
  then have "torch_stack (map input_of ?vs) = Inr (stacked (map input_of ?vs))"
    by (rule torch_stack_uniform)
  moreover have "stacked (map input_of ?vs) =
      PTensor (length ss # shape_obj (hd ?os)) (concat (map data_obj ?os))"
    unfolding ins using ne by (simp add: stacked_def hd_map comp_def)
  ultimately have "custom_collate dcv (PList ?vs) =
      Inr (PTuple [PTensor (length ss # shape_obj (hd ?os)) (concat (map data_obj ?os)),
                   PList (map (\<lambda>s. reify (Suc n) h (target_ref h s)) ss)])"
    using call ans by simp
  with v store run show ?thesis by simp
qed

subsection \<open>C10: the argument is not mutated\<close>

text \<open>
  C10. Neither function changes an object of the store it is given: after a call, whatever
  it returns or raises, the store starts with the old store (the batch list, every sample
  tuple, every input and every annotation mapping are as they were), provided the default
  resolver called on the fallback path leaves the objects unchanged as well. On a matched
  batch the custom branch of \<^verbatim>\<open>custom_detection_collate\<close> adds exactly three objects: the
  list of the addresses of the original inputs, the list of the addresses of the original
  annotations, and the pair of the two lists; \<^verbatim>\<open>custom_collate\<close> adds a fourth, the new
  stacked array.
\<close>

theorem collate_functions_do_not_mutate:
  assumes "\<And>b. frame (dc b)"
  shows "prefix h (snd (st_custom_collate dc batch h))
    \<and> prefix h (snd (st_custom_detection_collate dc batch h))
    \<and> (\<forall>a<length h. obj_at (snd (st_custom_collate dc batch h)) a = obj_at h a
          \<and> obj_at (snd (st_custom_detection_collate dc batch h)) a = obj_at h a)
    \<and> (matched_at h batch ss \<longrightarrow>
         st_custom_detection_collate dc batch h =
           (Inr (length h + 2),
            h @ [OList (map (input_ref h) ss), OList (map (target_ref h) ss),
                 OTuple [length h, length h + 1]]))
    \<and> (matched_at h batch ss \<and> uniform_objs (map (\<lambda>s. obj_at h (input_ref h s)) ss) \<longrightarrow>
         st_custom_collate dc batch h =
           (Inr (length h + 3),
            h @ [OList (map (input_ref h) ss),
                 stacked_obj (map (\<lambda>s. obj_at h (input_ref h s)) ss),
                 OList (map (target_ref h) ss),
                 OTuple [length h + 1, length h + 2]]))"
proof -
  from assms have "frame (st_custom_collate dc batch)" by (rule frame_custom_collate)
  then have f1: "prefix h (snd (st_custom_collate dc batch h))" by (simp add: frame_def)
  from assms have "frame (st_custom_detection_collate dc batch)"
    by (rule frame_custom_detection_collate)
  then have f2: "prefix h (snd (st_custom_detection_collate dc batch h))"
    by (simp add: frame_def)
  have d: "st_custom_detection_collate dc batch h =
      (Inr (length h + 2),
       h @ [OList (map (input_ref h) ss), OList (map (target_ref h) ss),
            OTuple [length h, length h + 1]])"
    if m: "matched_at h batch ss"
  proof -
    from m have "st_dispatch batch h = (Inr True, h)" by (rule st_dispatch_matched)
    then have "st_custom_detection_collate dc batch h = st_detection_branch batch h"
      by (simp add: st_custom_detection_collate_def st_bind_def)
    moreover from m have "obj_at h batch = OList ss" and "list_all (tuple2_at h) ss"
      by (simp_all add: matched_at_def)
    ultimately show ?thesis by (simp only: st_detection_branch_tuples)
  qed
  have c: "st_custom_collate dc batch h =
      (Inr (length h + 3),
       h @ [OList (map (input_ref h) ss),
            stacked_obj (map (\<lambda>s. obj_at h (input_ref h s)) ss),
            OList (map (target_ref h) ss),
            OTuple [length h + 1, length h + 2]])"
    if m: "matched_at h batch ss" and u: "uniform_objs (map (\<lambda>s. obj_at h (input_ref h s)) ss)"
  proof -
    from m have "st_dispatch batch h = (Inr True, h)" by (rule st_dispatch_matched)
    then have "st_custom_collate dc batch h = st_collate_branch batch h"
      by (simp add: st_custom_collate_def st_bind_def)
    moreover from m have "obj_at h batch = OList ss" and "list_all (tuple2_at h) ss"
      by (simp_all add: matched_at_def)
    ultimately show ?thesis using u by (simp only: st_collate_branch_tuples)
  qed
  from f1 f2 have p: "\<forall>a<length h. obj_at (snd (st_custom_collate dc batch h)) a = obj_at h a
      \<and> obj_at (snd (st_custom_detection_collate dc batch h)) a = obj_at h a"
    by (simp add: prefix_obj_at)
  from f1 f2 p d c show ?thesis by blast
qed

theorem collate_functions_do_not_mutate_witness:
  "st_custom_detection_collate (\<lambda>b. st_new ONone) 6
     [OTensor [1] [0], ODict [(KStr ''labels'', 7)], OTuple [0, 1],
      OTensor [1] [1], ODict [], OTuple [3, 4], OList [2, 5], OTensor [2] [8, 9]]
   = (Inr 10,
      [OTensor [1] [0], ODict [(KStr ''labels'', 7)], OTuple [0, 1],
       OTensor [1] [1], ODict [], OTuple [3, 4], OList [2, 5], OTensor [2] [8, 9],
       OList [0, 3], OList [1, 4], OTuple [8, 9]])
   \<and> st_custom_collate (\<lambda>b. st_new ONone) 6
     [OTensor [1] [0], ODict [(KStr ''labels'', 7)], OTuple [0, 1],
      OTensor [1] [1], ODict [], OTuple [3, 4], OList [2, 5], OTensor [2] [8, 9]]
   = (Inr 11,
      [OTensor [1] [0], ODict [(KStr ''labels'', 7)], OTuple [0, 1],
       OTensor [1] [1], ODict [], OTuple [3, 4], OList [2, 5], OTensor [2] [8, 9],
       OList [0, 3], OTensor [2, 1] [0, 1], OList [1, 4], OTuple [9, 10]])
   \<and> prefix [OTensor [1] [0], OInt 3, OTuple [0, 1], OList [2]]
        (snd (st_custom_collate (\<lambda>b. st_new ONone) 3
                [OTensor [1] [0], OInt 3, OTuple [0, 1], OList [2]]))"
  using collate_functions_do_not_mutate
    [of "\<lambda>b. st_new ONone"
        "[OTensor [1] [0], ODict [(KStr ''labels'', 7)], OTuple [0, 1],
          OTensor [1] [1], ODict [], OTuple [3, 4], OList [2, 5], OTensor [2] [8, 9]]"
        6 "[2, 5]"]
    collate_functions_do_not_mutate
    [of "\<lambda>b. st_new ONone" "[OTensor [1] [0], OInt 3, OTuple [0, 1], OList [2]]" 3 "[]"]
  by (simp add: frame_new matched_at_def tuple2_at_def obj_at_def input_ref_def target_ref_def
      uniform_objs_def stacked_obj_def)

end
